theory Spec2Isabelle
  imports Main "HOL-Library.Char_ord" "HOL-Library.List_Lexorder"
    "HOL-Library.Product_Lexorder" "HOL-Library.AList"
begin

section \<open>Shared Kubernetes vocabulary\<close>

text \<open>
  The Go types of the Kubernetes API that the two source files switch on.  The five
  workload and configuration types and the three list types are the ones the source
  names; every other Go type is \<open>OtherType\<close>, which records what
  \<^verbatim>\<open>meta.IsListType\<close> answers for it and whether it implements
  \<^verbatim>\<open>metav1.Object\<close>.
\<close>

datatype GoType =
    Deployment
  | StatefulSet
  | DaemonSet
  | ConfigMap
  | Secret
  | EventList
  | SecretList
  | ConfigMapList
  | OtherType (otherIsList: bool) (otherHasMeta: bool) string

text \<open>\<^verbatim>\<open>types.NamespacedName\<close>.\<close>

record NamespacedName =
  Namespace :: string
  Name :: string

text \<open>\<^verbatim>\<open>metav1.OwnerReference\<close>: the owner's kind and name, and the Controller flag.\<close>

record OwnerReference =
  refKind :: GoType
  refName :: string
  refController :: bool

text \<open>
  A Kubernetes object as the source files see it: its concrete Go type, the metadata the
  accessors \<^verbatim>\<open>GetName\<close>, \<^verbatim>\<open>GetNamespace\<close>,
  \<^verbatim>\<open>GetOwnerReferences\<close>, \<^verbatim>\<open>GetFinalizers\<close> and
  \<^verbatim>\<open>GetAnnotations\<close> read, and the remaining payload as a list of key/value
  pairs.
\<close>

record Object =
  objType :: GoType
  GetName :: string
  GetNamespace :: string
  GetOwnerReferences :: "OwnerReference list"
  GetFinalizers :: "string list"
  GetAnnotations :: "(string \<times> string) list"
  payload :: "(string \<times> string) list"

text \<open>The zero value \<^verbatim>\<open>&T{}\<close> of a type.\<close>

definition zero_value :: "GoType \<Rightarrow> Object" where
  "zero_value t = \<lparr>objType = t, GetName = [], GetNamespace = [], GetOwnerReferences = [],
     GetFinalizers = [], GetAnnotations = [], payload = []\<rparr>"

section \<open>pkg/controller/deployment/deployment\_controller.go\<close>

subsection \<open>Reconcile\<close>

text \<open>\<^verbatim>\<open>reconcile.Request\<close> embeds a NamespacedName; \<^verbatim>\<open>reconcile.Result\<close> has the
  two fields Requeue and RequeueAfter (a duration in nanoseconds).\<close>

record Request =
  NamespacedName :: NamespacedName

record Result =
  Requeue :: bool
  RequeueAfter :: int

text \<open>
  \<^verbatim>\<open>core.Handler\<close> is not part of the two source files, so the two methods Reconcile
  calls are parameters.  \<open>'w\<close> is the state of the cluster and of the event recorder,
  \<open>'e\<close> the type of Go errors.  \<open>Get\<close> is the client's Reader method: it reads the
  cluster and returns either an error or the object it filled in.
  \<open>HandleDeployment\<close> may change the cluster and returns a result and an error
  (\<open>None\<close> is Go's nil).
\<close>

record ('w, 'e) Handler =
  Get :: "NamespacedName \<Rightarrow> Object \<Rightarrow> 'w \<Rightarrow> 'e + Object"
  HandleDeployment :: "Object \<Rightarrow> 'w \<Rightarrow> (Result \<times> 'e option) \<times> 'w"

record ('w, 'e) ReconcileDeployment =
  handler :: "('w, 'e) Handler"

text \<open>The calls Reconcile makes on its handler, in order.\<close>

datatype HandlerCall =
    CallGet NamespacedName Object
  | CallHandleDeployment Object

text \<open>
  What one invocation of Reconcile yields: the returned pair, the cluster state it leaves
  and the handler calls it made.
\<close>

record ('w, 'e) Reconciled =
  returned :: "Result \<times> 'e option"
  cluster :: 'w
  calls :: "HandlerCall list"

text \<open>
  Reconcile, lines 95 to 109.  \<open>IsNotFound\<close> stands for
  \<^verbatim>\<open>errors.IsNotFound\<close> of k8s.io/apimachinery.
\<close>

definition Reconcile ::
  "('e \<Rightarrow> bool) \<Rightarrow> ('w, 'e) ReconcileDeployment \<Rightarrow> Request \<Rightarrow> 'w \<Rightarrow> ('w, 'e) Reconciled" where
  "Reconcile IsNotFound r request w =
     (let inst = zero_value Deployment in
      case Get (handler r) (NamespacedName request) inst w of
        Inl err \<Rightarrow>
          (if IsNotFound err
           then \<lparr>returned = (\<lparr>Requeue = False, RequeueAfter = 0\<rparr>, None), cluster = w,
                  calls = [CallGet (NamespacedName request) inst]\<rparr>
           else \<lparr>returned = (\<lparr>Requeue = False, RequeueAfter = 0\<rparr>, Some err), cluster = w,
                  calls = [CallGet (NamespacedName request) inst]\<rparr>)
      | Inr inst' \<Rightarrow>
          (case HandleDeployment (handler r) inst' w of
             (res, w') \<Rightarrow>
               \<lparr>returned = res, cluster = w',
                calls = [CallGet (NamespacedName request) inst, CallHandleDeployment inst']\<rparr>))"

text \<open>A small cluster for concrete runs: the objects it holds and whether it can be
  reached.  An error is its status reason.\<close>

datatype StatusReason = StatusReasonNotFound | StatusReasonServiceUnavailable

record tiny_cluster =
  objects :: "Object list"
  reachable :: bool

definition tiny_Get :: "NamespacedName \<Rightarrow> Object \<Rightarrow> tiny_cluster \<Rightarrow> StatusReason + Object" where
  "tiny_Get key into w =
     (if \<not> reachable w then Inl StatusReasonServiceUnavailable
      else case find (\<lambda>ob. objType ob = objType into \<and> GetName ob = Name key
                          \<and> GetNamespace ob = Namespace key) (objects w) of
             None \<Rightarrow> Inl StatusReasonNotFound
           | Some ob \<Rightarrow> Inr ob)"

definition tiny_handler :: "(tiny_cluster, StatusReason) Handler" where
  "tiny_handler =
     \<lparr>Get = tiny_Get,
      HandleDeployment = (\<lambda>inst w. ((\<lparr>Requeue = True, RequeueAfter = 5\<rparr>, None),
                                   w\<lparr>objects := inst # objects w\<rparr>))\<rparr>"

definition tiny_request :: Request where
  "tiny_request = \<lparr>NamespacedName = \<lparr>Namespace = ''default'', Name = ''web''\<rparr>\<rparr>"

subsection \<open>add: the watch wiring\<close>

text \<open>
  \<^verbatim>\<open>source.Kind{Type: ...}\<close> and the two event handlers of controller-runtime that
  \<open>add\<close> constructs, with the fields it sets.
\<close>

datatype Source = Kind GoType

datatype EventHandler =
    EnqueueRequestForObject
  | EnqueueRequestForOwner (IsController: bool) (OwnerType: GoType)

type_synonym Watch = "Source \<times> EventHandler"

text \<open>
  \<^verbatim>\<open>controller.New\<close> and \<^verbatim>\<open>c.Watch\<close> belong to controller-runtime, so they
  are parameters: \<open>New\<close> yields an error or a controller \<open>'c\<close>, \<open>Watch\<close>
  yields Go's error (\<open>None\<close> is nil) and the controller as the call leaves it.
  \<open>add\<close>, lines 47 to 79, returns its error; the model returns with it the
  controller as the last call left it (\<open>None\<close> when none was created), which in Go
  is the controller that the manager holds.
\<close>

definition add ::
  "(string \<Rightarrow> 'm \<Rightarrow> 'r \<Rightarrow> 'e + 'c) \<Rightarrow> ('c \<Rightarrow> Source \<Rightarrow> EventHandler \<Rightarrow> 'e option \<times> 'c)
     \<Rightarrow> 'm \<Rightarrow> 'r \<Rightarrow> 'e option \<times> 'c option" where
  "add New Watch mgr r =
     (case New ''deployment-controller'' mgr r of
        Inl err \<Rightarrow> (Some err, None)
      | Inr c \<Rightarrow>
          (case Watch c (Kind Deployment) EnqueueRequestForObject of
             (Some err, c1) \<Rightarrow> (Some err, Some c1)
           | (None, c1) \<Rightarrow>
               (case Watch c1 (Kind ConfigMap) (EnqueueRequestForOwner False Deployment) of
                  (Some err, c2) \<Rightarrow> (Some err, Some c2)
                | (None, c2) \<Rightarrow>
                    (case Watch c2 (Kind Secret) (EnqueueRequestForOwner False Deployment) of
                       (Some err, c3) \<Rightarrow> (Some err, Some c3)
                     | (None, c3) \<Rightarrow> (None, Some c3)))))"

text \<open>
  The events a watch delivers, as controller-runtime defines them: the creation, the
  deletion and the generic event carry one object, the update carries the object as it
  was and as it is.
\<close>

datatype ChangeEvent =
    CreateEvent Object
  | UpdateEvent (ObjectOld: Object) (ObjectNew: Object)
  | DeleteEvent Object
  | GenericEvent Object

fun event_objects :: "ChangeEvent \<Rightarrow> Object list" where
  "event_objects (CreateEvent ob) = [ob]"
| "event_objects (UpdateEvent old new) = [old, new]"
| "event_objects (DeleteEvent ob) = [ob]"
| "event_objects (GenericEvent ob) = [ob]"

text \<open>
  What the registered watches do with an event, as controller-runtime documents its
  handlers.  \<open>EnqueueRequestForObject\<close> enqueues the name and namespace of the
  object.  \<open>EnqueueRequestForOwner\<close> enqueues, in the object's namespace, the name of
  each of its owner references of the owner type; with IsController set it looks at the
  controlling reference only, otherwise at every owner reference.  On an update both
  handlers treat the old object first and then the new one, so an owner that the
  update removed is enqueued as well.  A watch on \<open>Kind t\<close> is fed by the informer
  of type \<open>t\<close>: it sees the events whose objects are of type \<open>t\<close>.
\<close>

definition request_for :: "string \<Rightarrow> string \<Rightarrow> Request" where
  "request_for ns n = \<lparr>NamespacedName = \<lparr>Namespace = ns, Name = n\<rparr>\<rparr>"

definition getOwnersReferences :: "bool \<Rightarrow> Object \<Rightarrow> OwnerReference list" where
  "getOwnersReferences isController ob =
     (if \<not> isController then GetOwnerReferences ob
      else case find refController (GetOwnerReferences ob) of
             None \<Rightarrow> []
           | Some ref \<Rightarrow> [ref])"

fun handler_requests :: "EventHandler \<Rightarrow> Object \<Rightarrow> Request list" where
  "handler_requests EnqueueRequestForObject ob = [request_for (GetNamespace ob) (GetName ob)]"
| "handler_requests (EnqueueRequestForOwner isController ownerType) ob =
     map (\<lambda>ref. request_for (GetNamespace ob) (refName ref))
         (filter (\<lambda>ref. refKind ref = ownerType) (getOwnersReferences isController ob))"

definition of_type :: "GoType \<Rightarrow> ChangeEvent \<Rightarrow> bool" where
  "of_type t ev \<longleftrightarrow> list_all (\<lambda>ob. objType ob = t) (event_objects ev)"

fun watch_requests :: "Watch \<Rightarrow> ChangeEvent \<Rightarrow> Request list" where
  "watch_requests (Kind t, h) ev =
     (if of_type t ev then concat (map (handler_requests h) (event_objects ev)) else [])"

definition enqueued :: "Watch list \<Rightarrow> ChangeEvent \<Rightarrow> Request list" where
  "enqueued ws ev = concat (map (\<lambda>w. watch_requests w ev) ws)"

text \<open>A controller for concrete runs: it is the list of its watches, a new one has
  none, and Watch appends; neither call fails.\<close>

definition tiny_New :: "string \<Rightarrow> unit \<Rightarrow> unit \<Rightarrow> StatusReason + Watch list" where
  "tiny_New n mgr r = Inr []"

definition tiny_Watch :: "Watch list \<Rightarrow> Source \<Rightarrow> EventHandler \<Rightarrow> StatusReason option \<times> Watch list" where
  "tiny_Watch c src h = (None, c @ [(src, h)])"

definition tiny_configmap :: Object where
  "tiny_configmap =
     \<lparr>objType = ConfigMap, GetName = ''app-config'', GetNamespace = ''default'',
      GetOwnerReferences =
        [\<lparr>refKind = Deployment, refName = ''web'', refController = False\<rparr>,
         \<lparr>refKind = StatefulSet, refName = ''db'', refController = False\<rparr>],
      GetFinalizers = [], GetAnnotations = [], payload = [(''x'', ''1'')]\<rparr>"

section \<open>test/utils/matchers.go\<close>

text \<open>
  The controller-runtime client is a parameter.  Its Reader methods Get and List read
  the store \<open>'w\<close> and return an error or the object they filled in; Update returns
  Go's error and the store as the call leaves it.
\<close>

record ('w, 'e) Client =
  Client_Get :: "NamespacedName \<Rightarrow> Object \<Rightarrow> 'w \<Rightarrow> 'e + Object"
  Client_List :: "Object \<Rightarrow> 'w \<Rightarrow> 'e + Object"
  Client_Update :: "Object \<Rightarrow> 'w \<Rightarrow> 'e option \<times> 'w"

record ('w, 'e) Matcher =
  Client :: "('w, 'e) Client"

datatype ClientCall =
    GetCall NamespacedName Object
  | UpdateCall Object

text \<open>What one run of the closure \<^verbatim>\<open>update\<close> yields: the error it returns, the
  store it leaves and the client calls it made, in order.\<close>

record ('w, 'e) Attempt =
  attemptErr :: "'e option"
  store :: 'w
  clientCalls :: "ClientCall list"

text \<open>
  Update, lines 48 to 61.  \<^verbatim>\<open>gomega.Eventually\<close> polls the closure it is given, so
  the model of Update is that closure.  The key is computed once, from the object as it
  is when Update is called; \<open>cur\<close> is what the shared variable \<^verbatim>\<open>obj\<close> holds when
  an attempt starts (an earlier attempt's Get may have overwritten it).
\<close>

definition Update ::
  "('w, 'e) Matcher \<Rightarrow> Object \<Rightarrow> (Object \<Rightarrow> Object) \<Rightarrow> Object \<Rightarrow> 'w \<Rightarrow> ('w, 'e) Attempt" where
  "Update m obj fn =
     (let key = \<lparr>Namespace = GetNamespace obj, Name = GetName obj\<rparr> in
      (\<lambda>cur w.
         case Client_Get (Client m) key cur w of
           Inl err \<Rightarrow> \<lparr>attemptErr = Some err, store = w, clientCalls = [GetCall key cur]\<rparr>
         | Inr fetched \<Rightarrow>
             (case Client_Update (Client m) (fn fetched) w of
                (e, w') \<Rightarrow>
                  \<lparr>attemptErr = e, store = w',
                   clientCalls = [GetCall key cur, UpdateCall (fn fetched)]\<rparr>)))"

text \<open>A panic carries the string or the error it was raised with.\<close>

datatype 'e Panic = PanicString string | PanicError 'e

text \<open>
  \<^verbatim>\<open>meta.IsListType\<close> looks for an Items field, and the type assertion
  \<^verbatim>\<open>obj.(Object)\<close> asks for \<^verbatim>\<open>metav1.Object\<close>: both are decided by the Go
  type.  The five workload and configuration types have object metadata and no Items;
  the three list types have Items and list metadata only.
\<close>

fun IsListType :: "GoType \<Rightarrow> bool" where
  "IsListType EventList = True"
| "IsListType SecretList = True"
| "IsListType ConfigMapList = True"
| "IsListType (OtherType isList hasMeta n) = isList"
| "IsListType t = False"

fun implementsObject :: "GoType \<Rightarrow> bool" where
  "implementsObject EventList = False"
| "implementsObject SecretList = False"
| "implementsObject ConfigMapList = False"
| "implementsObject (OtherType isList hasMeta n) = hasMeta"
| "implementsObject t = True"

text \<open>The type switch of eventuallyObject's closure, lines 119 to 132.\<close>

fun eventuallyObject_switch :: "GoType \<Rightarrow> 'e Panic + Object" where
  "eventuallyObject_switch StatefulSet = Inr (zero_value StatefulSet)"
| "eventuallyObject_switch ConfigMap = Inr (zero_value ConfigMap)"
| "eventuallyObject_switch Secret = Inr (zero_value Secret)"
| "eventuallyObject_switch Deployment = Inr (zero_value Deployment)"
| "eventuallyObject_switch DaemonSet = Inr (zero_value DaemonSet)"
| "eventuallyObject_switch t = Inl (PanicString ''Unknown Object type.'')"

text \<open>eventuallyObject, lines 110 to 142: the closure that gomega polls.\<close>

definition eventuallyObject :: "('w, 'e) Matcher \<Rightarrow> Object \<Rightarrow> 'w \<Rightarrow> 'e Panic + Object" where
  "eventuallyObject m obj =
     (let key = \<lparr>Namespace = GetNamespace obj, Name = GetName obj\<rparr> in
      (\<lambda>w. case eventuallyObject_switch (objType obj) of
              Inl p \<Rightarrow> Inl p
            | Inr u \<Rightarrow>
                (case Client_Get (Client m) key u w of
                   Inl err \<Rightarrow> Inl (PanicError err)
                 | Inr u' \<Rightarrow> Inr u')))"

text \<open>The type switch of eventuallyList's closure, lines 148 to 157.\<close>

fun eventuallyList_switch :: "GoType \<Rightarrow> 'e Panic + Object" where
  "eventuallyList_switch EventList = Inr (zero_value EventList)"
| "eventuallyList_switch SecretList = Inr (zero_value SecretList)"
| "eventuallyList_switch ConfigMapList = Inr (zero_value ConfigMapList)"
| "eventuallyList_switch t = Inl (PanicString ''Unknown List type.'')"

text \<open>eventuallyList, lines 145 to 165.\<close>

definition eventuallyList :: "('w, 'e) Matcher \<Rightarrow> Object \<Rightarrow> 'w \<Rightarrow> 'e Panic + Object" where
  "eventuallyList m obj =
     (\<lambda>w. case eventuallyList_switch (objType obj) of
             Inl p \<Rightarrow> Inl p
           | Inr u \<Rightarrow>
               (case Client_List (Client m) u w of
                  Inl err \<Rightarrow> Inl (PanicError err)
                | Inr u' \<Rightarrow> Inr u'))"

text \<open>Eventually, lines 97 to 107: it panics itself, or hands a closure to gomega.\<close>

definition Eventually ::
  "('w, 'e) Matcher \<Rightarrow> Object \<Rightarrow> 'e Panic + ('w \<Rightarrow> 'e Panic + Object)" where
  "Eventually m obj =
     (if IsListType (objType obj) then Inr (eventuallyList m obj)
      else if implementsObject (objType obj) then Inr (eventuallyObject m obj)
      else Inl (PanicString ''Unknown object.''))"

text \<open>A matcher on the small cluster: Update replaces the stored object of the same type
  and name, and fails when there is none.\<close>

definition same_object :: "Object \<Rightarrow> Object \<Rightarrow> bool" where
  "same_object a b \<longleftrightarrow>
     objType a = objType b \<and> GetName a = GetName b \<and> GetNamespace a = GetNamespace b"

definition tiny_Update :: "Object \<Rightarrow> tiny_cluster \<Rightarrow> StatusReason option \<times> tiny_cluster" where
  "tiny_Update ob w =
     (if \<not> reachable w then (Some StatusReasonServiceUnavailable, w)
      else if list_ex (same_object ob) (objects w)
      then (None, w\<lparr>objects := map (\<lambda>x. if same_object ob x then ob else x) (objects w)\<rparr>)
      else (Some StatusReasonNotFound, w))"

definition tiny_matcher :: "(tiny_cluster, StatusReason) Matcher" where
  "tiny_matcher =
     \<lparr>Client = \<lparr>Client_Get = tiny_Get,
                Client_List = (\<lambda>u w. Inl StatusReasonServiceUnavailable),
                Client_Update = tiny_Update\<rparr>\<rparr>"

definition set_payload :: "Object \<Rightarrow> Object" where
  "set_payload ob = ob\<lparr>payload := [(''x'', ''2'')]\<rparr>"

section \<open>pkg/core: the reconciliation engine\<close>

text \<open>
  The package \<^verbatim>\<open>pkg/core\<close> (the Handler that \<^verbatim>\<open>core.NewHandler\<close> builds and
  \<^verbatim>\<open>HandleDeployment\<close> enters) is not among the source files.  Every definition of
  this section is therefore modelled from the specification, sections 3 and 4, and
  says so.  The backing store is the engine's view of it within one invocation: a Get
  finds an object or does not (section 6), and an Update is accepted or rejected as the
  store decides.
\<close>

subsection \<open>Data model\<close>

text \<open>Modelled from the spec: the kinds of a Dependency (config-map-shaped or
  secret-shaped) and of an Owner (deployment, stateful set, daemon set), section 3.\<close>

datatype DependencyKind = ConfigMapKind | SecretKind

datatype OwnerKind = DeploymentKind | StatefulSetKind | DaemonSetKind

text \<open>Modelled from the spec: a Reference is an extracted (kind, name, required)
  triple, section 3.\<close>

record Reference =
  ref_kind :: DependencyKind
  ref_name :: string
  required :: bool

text \<open>Modelled from the spec: the places of a pod template that can name a
  configuration object (section 4.1): a volume of config-map or secret type, the
  sources of a projected volume, and the environment-variable and envFrom sources of
  containers and init containers.  Each carries the object's name and whether its
  absence is tolerated (optional); \<open>NoSource\<close> is a place that names none.\<close>

datatype ConfigSource =
    ConfigMapSource string bool
  | SecretSource string bool
  | NoSource

datatype Volume = Volume ConfigSource | ProjectedVolume "ConfigSource list"

record Container =
  env :: "ConfigSource list"
  envFrom :: "ConfigSource list"

text \<open>Modelled from the spec: the pod template of an Owner, with its annotations in
  the order the map is iterated.\<close>

record PodTemplate =
  annotations :: "(string \<times> string) list"
  volumes :: "Volume list"
  initContainers :: "Container list"
  containers :: "Container list"

text \<open>Modelled from the spec: the content of a Dependency is opaque key to bytes data;
  the list is the map in the order it happens to be iterated.  The fetched contents
  are keyed by the identity (kind, name) of the reference, in fetch order.\<close>

type_synonym Content = "(string \<times> string) list"

type_synonym Contents = "((DependencyKind \<times> string) \<times> Content) list"

text \<open>Modelled from the spec: the error taxonomy of section 7; MissingDependency
  carries the identity of the reference.\<close>

datatype EngineError =
    NotFoundOwner
  | MissingDependency DependencyKind string
  | WriteConflict
  | ExtractionAmbiguity
  | StoreUnavailable

text \<open>Modelled from the spec: Owners and Dependencies are identified by (namespace,
  name, kind), section 3.\<close>

record OwnerId =
  owner_namespace :: string
  owner_name :: string
  owner_kind :: OwnerKind

record DependencyId =
  dep_namespace :: string
  dep_name :: string
  dep_kind :: DependencyKind

text \<open>Modelled from the spec: a Dependency holds its content, its owner-reference list
  (the ownership edges) and its finalizers, section 3.\<close>

record Dependency =
  data :: Content
  ownerReferences :: "OwnerId list"
  finalizers :: "string list"

text \<open>Modelled from the spec: the backing store, as far as the engine reads and writes
  it: the pod template of each Owner and each Dependency, looked up by identity.\<close>

record Store =
  owners :: "(OwnerId \<times> PodTemplate) list"
  dependencies :: "(DependencyId \<times> Dependency) list"

text \<open>Modelled from the spec: the engine-reserved annotation key (named in section 8)
  and the single shared finalizer token (section 6 fixes that it is a constant, not
  its value).\<close>

definition ConfigHashAnnotation :: string where
  "ConfigHashAnnotation = ''wave.pusher.com/config-hash''"

definition FinalizerString :: string where
  "FinalizerString = ''wave.pusher.com/finalizer''"

subsection \<open>Reference Extractor\<close>

text \<open>Modelled from the spec: the order of section 4.1 is lexicographic by kind, then
  name; the kind is compared by its name.\<close>

fun kind_name :: "DependencyKind \<Rightarrow> string" where
  "kind_name ConfigMapKind = ''ConfigMap''"
| "kind_name SecretKind = ''Secret''"

definition ref_key :: "Reference \<Rightarrow> string \<times> string" where
  "ref_key r = (kind_name (ref_kind r), ref_name r)"

definition ref_id :: "Reference \<Rightarrow> DependencyKind \<times> string" where
  "ref_id r = (ref_kind r, ref_name r)"

text \<open>Modelled from the spec: the walk of section 4.1 over volumes, projected-volume
  sources, and the env and envFrom sources of init containers and containers; a
  reference is required unless its source is marked optional.\<close>

fun source_refs :: "ConfigSource \<Rightarrow> Reference list" where
  "source_refs (ConfigMapSource n optional) =
     [\<lparr>ref_kind = ConfigMapKind, ref_name = n, required = \<not> optional\<rparr>]"
| "source_refs (SecretSource n optional) =
     [\<lparr>ref_kind = SecretKind, ref_name = n, required = \<not> optional\<rparr>]"
| "source_refs NoSource = []"

fun volume_refs :: "Volume \<Rightarrow> Reference list" where
  "volume_refs (Volume src) = source_refs src"
| "volume_refs (ProjectedVolume srcs) = concat (map source_refs srcs)"

definition container_refs :: "Container \<Rightarrow> Reference list" where
  "container_refs c = concat (map source_refs (env c)) @ concat (map source_refs (envFrom c))"

definition mentions :: "PodTemplate \<Rightarrow> Reference list" where
  "mentions T = concat (map volume_refs (volumes T))
              @ concat (map container_refs (initContainers T @ containers T))"

text \<open>Modelled from the spec: references with identical (kind, name) are one
  reference, required if any occurrence is (section 4.1).\<close>

definition merge_required :: "Reference list \<Rightarrow> Reference \<Rightarrow> Reference" where
  "merge_required occs r =
     r\<lparr>required := list_ex (\<lambda>x. ref_key x = ref_key r \<and> required x) occs\<rparr>"

text \<open>Modelled from the spec: Extract(podTemplate), section 4.1: the deduplicated
  references in lexicographic order of kind, then name.\<close>

definition Extract :: "PodTemplate \<Rightarrow> Reference list" where
  "Extract T = sort_key ref_key (remdups (map (merge_required (mentions T)) (mentions T)))"

subsection \<open>Fingerprint Engine\<close>

text \<open>Modelled from the spec: the stable serialization of section 4.2: the reference
  identity, then the key/value pairs of the content sorted by key.  The spec fixes no
  separators; these are one choice.\<close>

definition serialize_content :: "Content \<Rightarrow> string" where
  "serialize_content c = concat (map (\<lambda>(k, v). k @ ''='' @ v @ '';'') (sort_key fst c))"

definition serialize_ref :: "Reference \<Rightarrow> Content \<Rightarrow> string" where
  "serialize_ref r c = kind_name (ref_kind r) @ ''/'' @ ref_name r @ '':'' @ serialize_content c"

text \<open>Modelled from the spec: the byte stream of section 4.2.  For each reference, in
  the Extractor's order, the fetched content is looked up; a missing required
  reference fails with MissingDependency carrying its identity, a missing optional one
  contributes empty content.\<close>

fun byte_stream :: "Reference list \<Rightarrow> Contents \<Rightarrow> EngineError + string" where
  "byte_stream [] C = Inr []"
| "byte_stream (r # rs) C =
     (case map_of C (ref_id r) of
        None \<Rightarrow>
          (if required r then Inl (MissingDependency (ref_kind r) (ref_name r))
           else (case byte_stream rs C of
                   Inl e \<Rightarrow> Inl e
                 | Inr s \<Rightarrow> Inr (serialize_ref r [] @ s)))
      | Some c \<Rightarrow>
          (case byte_stream rs C of
             Inl e \<Rightarrow> Inl e
           | Inr s \<Rightarrow> Inr (serialize_ref r c @ s)))"

text \<open>Modelled from the spec: Fingerprint(references, fetchedContents), section 4.2; the
  cryptographic digest is the parameter \<open>digest\<close>.\<close>

definition Fingerprint ::
  "(string \<Rightarrow> string) \<Rightarrow> Reference list \<Rightarrow> Contents \<Rightarrow> EngineError + string" where
  "Fingerprint digest refs C =
     (case byte_stream refs C of Inl e \<Rightarrow> Inl e | Inr s \<Rightarrow> Inr (digest s))"

text \<open>Modelled from the spec: the digest is written under the engine-owned annotation
  key and every other annotation is left as it is (section 4.2).\<close>

definition setConfigHash :: "string \<Rightarrow> PodTemplate \<Rightarrow> PodTemplate" where
  "setConfigHash fp T = T\<lparr>annotations := AList.update ConfigHashAnnotation fp (annotations T)\<rparr>"

subsection \<open>Dependency Tracker\<close>

text \<open>Modelled from the spec: a reference of an Owner names the Dependency of that kind
  and name in the Owner's namespace; a Dependency carries an ownership edge to an
  Owner when the Owner is in its owner-reference list.\<close>

definition dep_of :: "OwnerId \<Rightarrow> Reference \<Rightarrow> DependencyId" where
  "dep_of ow r = \<lparr>dep_namespace = owner_namespace ow, dep_name = ref_name r, dep_kind = ref_kind r\<rparr>"

definition has_edge :: "OwnerId \<Rightarrow> Dependency \<Rightarrow> bool" where
  "has_edge ow d \<longleftrightarrow> ow \<in> set (ownerReferences d)"

text \<open>Modelled from the spec: the Dependency mutations of section 4.3, as desired-state
  patches on one Dependency.  AddEdge adds the Owner's edge if absent and the finalizer
  if absent; RemoveEdge removes the Owner's edge and, if no edge is left, the
  finalizer.\<close>

datatype Mutation = AddEdge DependencyId OwnerId | RemoveEdge DependencyId OwnerId

fun target :: "Mutation \<Rightarrow> DependencyId" where
  "target (AddEdge k ow) = k"
| "target (RemoveEdge k ow) = k"

fun patch :: "Mutation \<Rightarrow> Dependency \<Rightarrow> Dependency" where
  "patch (AddEdge k ow) d =
     d\<lparr>ownerReferences :=
         (if ow \<in> set (ownerReferences d) then ownerReferences d else ownerReferences d @ [ow]),
       finalizers :=
         (if FinalizerString \<in> set (finalizers d) then finalizers d
          else finalizers d @ [FinalizerString])\<rparr>"
| "patch (RemoveEdge k ow) d =
     d\<lparr>ownerReferences := removeAll ow (ownerReferences d),
       finalizers :=
         (if removeAll ow (ownerReferences d) = [] then removeAll FinalizerString (finalizers d)
          else finalizers d)\<rparr>"

text \<open>Modelled from the spec: a mutation is one update of its Dependency in the store;
  a list of mutations is applied one update after the other.\<close>

definition apply_mutation ::
  "Mutation \<Rightarrow> (DependencyId \<times> Dependency) list \<Rightarrow> (DependencyId \<times> Dependency) list" where
  "apply_mutation m deps = AList.map_entry (target m) (patch m) deps"

fun apply_mutations ::
  "Mutation list \<Rightarrow> (DependencyId \<times> Dependency) list \<Rightarrow> (DependencyId \<times> Dependency) list" where
  "apply_mutations [] deps = deps"
| "apply_mutations (m # ms) deps = apply_mutations ms (apply_mutation m deps)"

text \<open>Modelled from the spec: the first rule of Sync, section 4.3: each Dependency that
  carries this Owner's edge and is absent from the desired references loses the
  edge.\<close>

definition stale_edges ::
  "OwnerId \<Rightarrow> Reference list \<Rightarrow> (DependencyId \<times> Dependency) list \<Rightarrow> Mutation list" where
  "stale_edges ow refs current =
     map (\<lambda>k. RemoveEdge k ow)
       (filter (\<lambda>k. (case map_of current k of None \<Rightarrow> False | Some d \<Rightarrow> has_edge ow d)
                     \<and> k \<notin> set (map (dep_of ow) refs))
          (remdups (map fst current)))"

text \<open>Modelled from the spec: the second rule of Sync, section 4.3: each desired
  reference not yet backed by an edge has its Dependency fetched, which fails with
  MissingDependency if it is required and absent, and gains the edge.  An optional
  reference whose Dependency is absent has nothing to gain an edge.\<close>

fun missing_edges ::
  "OwnerId \<Rightarrow> Reference list \<Rightarrow> (DependencyId \<times> Dependency) list \<Rightarrow> EngineError + Mutation list" where
  "missing_edges ow [] current = Inr []"
| "missing_edges ow (r # rs) current =
     (case map_of current (dep_of ow r) of
        None \<Rightarrow>
          (if required r then Inl (MissingDependency (ref_kind r) (ref_name r))
           else missing_edges ow rs current)
      | Some d \<Rightarrow>
          (if has_edge ow d then missing_edges ow rs current
           else (case missing_edges ow rs current of
                   Inl e \<Rightarrow> Inl e
                 | Inr ms \<Rightarrow> Inr (AddEdge (dep_of ow r) ow # ms))))"

text \<open>Modelled from the spec: Sync(owner, desiredReferences, currentDependencyState),
  section 4.3, yields the Dependency mutations or fails.\<close>

definition Sync ::
  "OwnerId \<Rightarrow> Reference list \<Rightarrow> (DependencyId \<times> Dependency) list \<Rightarrow> EngineError + Mutation list" where
  "Sync ow refs current =
     (case missing_edges ow refs current of
        Inl e \<Rightarrow> Inl e
      | Inr adds \<Rightarrow> Inr (stale_edges ow refs current @ adds))"

subsection \<open>Reconciliation Orchestrator\<close>

text \<open>Modelled from the spec: the answer of the store to an Update (section 6 and
  the taxonomy of section 7): the update is accepted, or rejected because the version
  last read is stale, or lost to a transport or backing-store failure.  Which answer an
  update gets is decided outside the engine, so an invocation takes the answers as a
  parameter.\<close>

datatype Write = OwnerWrite OwnerId | DependencyWrite DependencyId

datatype UpdateAnswer = Accepted | Conflict | Unavailable

fun answer_error :: "UpdateAnswer \<Rightarrow> EngineError option" where
  "answer_error Accepted = None"
| "answer_error Conflict = Some WriteConflict"
| "answer_error Unavailable = Some StoreUnavailable"

text \<open>Modelled from the spec: what one invocation yields (sections 4.4 and 6): its
  error (\<open>None\<close> is success), whether a requeue is requested, the store it leaves, the
  updates it issued in order, each with the store's answer, and the events it
  recorded.\<close>

datatype Event = Rolled | Unchanged | Warning EngineError

record Outcome =
  result :: "EngineError option"
  requeue :: bool
  final :: Store
  writes :: "(Write \<times> UpdateAnswer) list"
  events :: "(OwnerId \<times> Event) list"

text \<open>Modelled from the spec: step 3 of section 4.4, the fetch of the Dependency of
  every extracted reference; a required but missing one is a failure, a missing
  optional one is left out of the fetched contents.\<close>

fun fetchDependencies ::
  "OwnerId \<Rightarrow> Reference list \<Rightarrow> (DependencyId \<times> Dependency) list \<Rightarrow> EngineError + Contents" where
  "fetchDependencies ow [] deps = Inr []"
| "fetchDependencies ow (r # rs) deps =
     (case map_of deps (dep_of ow r) of
        None \<Rightarrow>
          (if required r then Inl (MissingDependency (ref_kind r) (ref_name r))
           else fetchDependencies ow rs deps)
      | Some d \<Rightarrow>
          (case fetchDependencies ow rs deps of
             Inl e \<Rightarrow> Inl e
           | Inr C \<Rightarrow> Inr ((ref_id r, data d) # C)))"

text \<open>Modelled from the spec: the per-Dependency updates of section 5.  Every mutation
  is sent, one update each; a rejected one leaves its Dependency as it was and does
  not block the others.  \<open>update_log\<close> is the updates sent with their answers,
  \<open>apply_accepted\<close> the Dependencies after them.\<close>

definition update_log :: "(Write \<Rightarrow> UpdateAnswer) \<Rightarrow> Mutation list \<Rightarrow> (Write \<times> UpdateAnswer) list" where
  "update_log answer ms =
     map (\<lambda>m. (DependencyWrite (target m), answer (DependencyWrite (target m)))) ms"

fun apply_accepted ::
  "(Write \<Rightarrow> UpdateAnswer) \<Rightarrow> Mutation list \<Rightarrow> (DependencyId \<times> Dependency) list
     \<Rightarrow> (DependencyId \<times> Dependency) list" where
  "apply_accepted answer [] deps = deps"
| "apply_accepted answer (m # ms) deps =
     apply_accepted answer ms
       (if answer (DependencyWrite (target m)) = Accepted then apply_mutation m deps else deps)"

text \<open>Modelled from the spec: the invocation reports aggregate failure if any
  sub-mutation failed (section 5); the error reported is that of the first rejected
  update.\<close>

definition first_rejection :: "(Write \<times> UpdateAnswer) list \<Rightarrow> EngineError option" where
  "first_rejection log =
     (case find (\<lambda>(w, a). a \<noteq> Accepted) log of
        None \<Rightarrow> None
      | Some (w, a) \<Rightarrow> answer_error a)"

text \<open>Modelled from the spec: a terminal failure requests a requeue and records a
  warning event on the Owner (sections 4.4 and 7).\<close>

definition failed ::
  "OwnerId \<Rightarrow> EngineError \<Rightarrow> Store \<Rightarrow> (Write \<times> UpdateAnswer) list \<Rightarrow> Outcome" where
  "failed ow e s ws =
     \<lparr>result = Some e, requeue = True, final = s, writes = ws, events = [(ow, Warning e)]\<rparr>"

text \<open>Modelled from the spec: the state machine of section 4.4.  Fetch the Owner (not
  found is success and a no-op); extract; fetch the Dependencies; fingerprint and
  compare with the stored annotation; update the Owner only if it differs, and if the
  store rejects that update return the failure with nothing written (no retry, no
  partial write); otherwise run Sync in either case and send its mutations, each on
  its own; record the outcome.\<close>

definition Orchestrator ::
  "(string \<Rightarrow> string) \<Rightarrow> (Write \<Rightarrow> UpdateAnswer) \<Rightarrow> OwnerId \<Rightarrow> Store \<Rightarrow> Outcome" where
  "Orchestrator digest answer ow s =
     (case map_of (owners s) ow of
        None \<Rightarrow> \<lparr>result = None, requeue = False, final = s, writes = [], events = []\<rparr>
      | Some T \<Rightarrow>
          (let refs = Extract T in
           case fetchDependencies ow refs (dependencies s) of
             Inl e \<Rightarrow> failed ow e s []
           | Inr C \<Rightarrow>
               (case Fingerprint digest refs C of
                  Inl e \<Rightarrow> failed ow e s []
                | Inr fp \<Rightarrow>
                    (let changed = (map_of (annotations T) ConfigHashAnnotation \<noteq> Some fp) in
                     case (if changed then answer_error (answer (OwnerWrite ow)) else None) of
                       Some e \<Rightarrow> failed ow e s [(OwnerWrite ow, answer (OwnerWrite ow))]
                     | None \<Rightarrow>
                         (let s1 = (if changed
                                    then s\<lparr>owners := AList.update ow (setConfigHash fp T) (owners s)\<rparr>
                                    else s);
                              w1 = (if changed then [(OwnerWrite ow, Accepted)] else [])
                          in case Sync ow refs (dependencies s1) of
                               Inl e \<Rightarrow> failed ow e s1 w1
                             | Inr ms \<Rightarrow>
                                 (let log = update_log answer ms;
                                      s2 = s1\<lparr>dependencies :=
                                                apply_accepted answer ms (dependencies s1)\<rparr>
                                  in case first_rejection log of
                                       Some e \<Rightarrow> failed ow e s2 (w1 @ log)
                                     | None \<Rightarrow>
                                         \<lparr>result = None, requeue = False, final = s2,
                                          writes = w1 @ log,
                                          events = [(ow, if changed then Rolled
                                                         else Unchanged)]\<rparr>))))))"

subsection \<open>Notions the properties are stated with\<close>

text \<open>Two listings of one Go map: the same entries, each key once, in any order.\<close>

definition same_entries :: "('k \<times> 'v) list \<Rightarrow> ('k \<times> 'v) list \<Rightarrow> bool" where
  "same_entries c c' \<longleftrightarrow> distinct (map fst c) \<and> distinct (map fst c') \<and> set c = set c'"

text \<open>Two fetch results that hold the same contents: every reference fetched in one is
  fetched in the other, with the same entries, whatever the fetch order and the
  iteration order of each content.\<close>

definition same_contents :: "Contents \<Rightarrow> Contents \<Rightarrow> bool" where
  "same_contents C C' \<longleftrightarrow>
     list_all (\<lambda>(k, c). case map_of C' k of None \<Rightarrow> False | Some c' \<Rightarrow> same_entries c c') C
     \<and> list_all (\<lambda>(k, c'). map_of C k \<noteq> None) C'"

text \<open>A reference is missing in a map when it is required and its key has no entry.\<close>

definition missing_in :: "('k \<times> 'v) list \<Rightarrow> (Reference \<Rightarrow> 'k) \<Rightarrow> Reference \<Rightarrow> bool" where
  "missing_in m key r \<longleftrightarrow> required r \<and> map_of m (key r) = None"

text \<open>The contents that the fetch step yields when nothing required is missing, and the
  fingerprint over them: an absent Dependency contributes empty content.\<close>

definition fetched_contents ::
  "OwnerId \<Rightarrow> Reference list \<Rightarrow> (DependencyId \<times> Dependency) list \<Rightarrow> Contents" where
  "fetched_contents ow refs deps =
     concat (map (\<lambda>r. case map_of deps (dep_of ow r) of
                         None \<Rightarrow> []
                       | Some d \<Rightarrow> [(ref_id r, data d)]) refs)"

definition expected_fingerprint ::
  "(string \<Rightarrow> string) \<Rightarrow> OwnerId \<Rightarrow> Reference list \<Rightarrow> (DependencyId \<times> Dependency) list \<Rightarrow> string" where
  "expected_fingerprint digest ow refs deps =
     digest (concat (map (\<lambda>r. serialize_ref r (case map_of deps (dep_of ow r) of
                                                   None \<Rightarrow> [] | Some d \<Rightarrow> data d)) refs))"

text \<open>The Dependency stored under a key carries an edge to the Owner; the set of the
  Dependencies of a store that do.\<close>

definition edge_at :: "(DependencyId \<times> Dependency) list \<Rightarrow> OwnerId \<Rightarrow> DependencyId \<Rightarrow> bool" where
  "edge_at deps ow k = (case map_of deps k of None \<Rightarrow> False | Some d \<Rightarrow> has_edge ow d)"

definition edge_holders :: "(DependencyId \<times> Dependency) list \<Rightarrow> OwnerId \<Rightarrow> DependencyId set" where
  "edge_holders deps ow = set (filter (edge_at deps ow) (map fst deps))"



subsection \<open>The scenarios of section 8, as concrete stores\<close>

definition accept_all :: "Write \<Rightarrow> UpdateAnswer" where
  "accept_all w = Accepted"


definition web :: OwnerId where
  "web = \<lparr>owner_namespace = ''default'', owner_name = ''web'', owner_kind = DeploymentKind\<rparr>"

definition cm :: "string \<Rightarrow> DependencyId" where
  "cm n = \<lparr>dep_namespace = ''default'', dep_name = n, dep_kind = ConfigMapKind\<rparr>"

definition web_template :: "string \<Rightarrow> bool \<Rightarrow> PodTemplate" where
  "web_template n optional =
     \<lparr>annotations = [], volumes = [Volume (ConfigMapSource n optional)],
      initContainers = [], containers = []\<rparr>"

definition plain :: "Content \<Rightarrow> Dependency" where
  "plain c = \<lparr>data = c, ownerReferences = [], finalizers = []\<rparr>"

definition two_configs :: "(DependencyId \<times> Dependency) list" where
  "two_configs = [(cm ''app-config'', plain [(''x'', ''1'')]),
                  (cm ''other-config'', plain [(''y'', ''1'')])]"

definition store_fresh :: Store where
  "store_fresh = \<lparr>owners = [(web, web_template ''app-config'' False)], dependencies = two_configs\<rparr>"

definition store_missing :: Store where
  "store_missing = \<lparr>owners = [(web, web_template ''nope'' False)], dependencies = two_configs\<rparr>"

definition store_optional :: Store where
  "store_optional = \<lparr>owners = [(web, web_template ''absent'' True)], dependencies = []\<rparr>"


definition template_a :: PodTemplate where
  "template_a = \<lparr>annotations = [],
     volumes = [Volume (ConfigMapSource ''app-config'' False), Volume (SecretSource ''tls'' True)],
     initContainers = [], containers = [\<lparr>env = [SecretSource ''tls'' False], envFrom = []\<rparr>]\<rparr>"

definition template_b :: PodTemplate where
  "template_b = \<lparr>annotations = [(''team'', ''a'')],
     volumes = [ProjectedVolume [SecretSource ''tls'' False, SecretSource ''tls'' True]],
     initContainers = [\<lparr>env = [], envFrom = [ConfigMapSource ''app-config'' False]\<rparr>],
     containers = []\<rparr>"

definition contents_a :: Contents where
  "contents_a = [((ConfigMapKind, ''app-config''), [(''x'', ''1''), (''y'', ''2'')]),
                 ((SecretKind, ''tls''), [(''crt'', ''c''), (''key'', ''k'')])]"

definition contents_b :: Contents where
  "contents_b = [((SecretKind, ''tls''), [(''key'', ''k''), (''crt'', ''c'')]),
                 ((ConfigMapKind, ''app-config''), [(''y'', ''2''), (''x'', ''1'')])]"

section \<open>Properties of the controller wiring\<close>

text \<open>
  C1.  When the fetch of the Deployment fails with an error that
  \<^verbatim>\<open>errors.IsNotFound\<close> accepts, Reconcile returns the empty result and no error,
  leaves the cluster as it was, and the only call it makes on the handler is that one
  Get: HandleDeployment is not called.
\<close>

theorem Reconcile_not_found:
  assumes "Get (handler r) (NamespacedName request) (zero_value Deployment) w = Inl err"
    and "IsNotFound err"
  shows "Reconcile IsNotFound r request w =
           \<lparr>returned = (\<lparr>Requeue = False, RequeueAfter = 0\<rparr>, None), cluster = w,
            calls = [CallGet (NamespacedName request) (zero_value Deployment)]\<rparr>"
  using assms by (simp add: Reconcile_def)

theorem Reconcile_not_found_witness:
  "Get (handler \<lparr>handler = tiny_handler\<rparr>) (NamespacedName tiny_request) (zero_value Deployment)
       \<lparr>objects = [], reachable = True\<rparr> = Inl StatusReasonNotFound
   \<and> (StatusReasonNotFound = StatusReasonNotFound)
   \<and> Reconcile (\<lambda>e. e = StatusReasonNotFound) \<lparr>handler = tiny_handler\<rparr> tiny_request
       \<lparr>objects = [], reachable = True\<rparr> =
       \<lparr>returned = (\<lparr>Requeue = False, RequeueAfter = 0\<rparr>, None),
        cluster = \<lparr>objects = [], reachable = True\<rparr>,
        calls = [CallGet (NamespacedName tiny_request) (zero_value Deployment)]\<rparr>"
proof -
  have g: "Get (handler \<lparr>handler = tiny_handler\<rparr>) (NamespacedName tiny_request)
             (zero_value Deployment) \<lparr>objects = [], reachable = True\<rparr> = Inl StatusReasonNotFound"
    by (simp add: tiny_handler_def tiny_Get_def)
  have n: "(\<lambda>e. e = StatusReasonNotFound) StatusReasonNotFound" by simp
  from Reconcile_not_found [where IsNotFound = "\<lambda>e. e = StatusReasonNotFound", OF g n] g
  show ?thesis by simp
qed

text \<open>
  C2.  When the fetch of the Deployment fails with an error that
  \<^verbatim>\<open>errors.IsNotFound\<close> rejects, Reconcile returns the empty result together with
  that very error, leaves the cluster as it was, and has made exactly one Get call and
  no other: it does not retry, and the result asks for no delayed requeue of its own.
\<close>

theorem Reconcile_fetch_error:
  assumes "Get (handler r) (NamespacedName request) (zero_value Deployment) w = Inl err"
    and "\<not> IsNotFound err"
  shows "Reconcile IsNotFound r request w =
           \<lparr>returned = (\<lparr>Requeue = False, RequeueAfter = 0\<rparr>, Some err), cluster = w,
            calls = [CallGet (NamespacedName request) (zero_value Deployment)]\<rparr>"
  using assms by (simp add: Reconcile_def)

theorem Reconcile_fetch_error_witness:
  "Get (handler \<lparr>handler = tiny_handler\<rparr>) (NamespacedName tiny_request) (zero_value Deployment)
       \<lparr>objects = [], reachable = False\<rparr> = Inl StatusReasonServiceUnavailable
   \<and> StatusReasonServiceUnavailable \<noteq> StatusReasonNotFound
   \<and> Reconcile (\<lambda>e. e = StatusReasonNotFound) \<lparr>handler = tiny_handler\<rparr> tiny_request
       \<lparr>objects = [], reachable = False\<rparr> =
       \<lparr>returned = (\<lparr>Requeue = False, RequeueAfter = 0\<rparr>, Some StatusReasonServiceUnavailable),
        cluster = \<lparr>objects = [], reachable = False\<rparr>,
        calls = [CallGet (NamespacedName tiny_request) (zero_value Deployment)]\<rparr>"
proof -
  have g: "Get (handler \<lparr>handler = tiny_handler\<rparr>) (NamespacedName tiny_request)
             (zero_value Deployment) \<lparr>objects = [], reachable = False\<rparr>
           = Inl StatusReasonServiceUnavailable"
    by (simp add: tiny_handler_def tiny_Get_def)
  have n: "\<not> (\<lambda>e. e = StatusReasonNotFound) StatusReasonServiceUnavailable" by simp
  from Reconcile_fetch_error [where IsNotFound = "\<lambda>e. e = StatusReasonNotFound", OF g n] g
  show ?thesis by simp
qed

text \<open>
  C3.  Let \<open>registered\<close> read the watches of a controller, and let the library
  behave as documented: a new controller has no watch, and a Watch call that returns
  nil adds exactly the watch it was given.  When \<open>add\<close> returns nil, it has created
  the controller and made three Watch calls on it, each on the controller the previous
  call left and each returning nil: on Deployments with the enqueue-the-object handler,
  and on ConfigMaps and on Secrets with the enqueue-the-owner handler for owners of
  type Deployment, not restricted to the controlling reference.  The controller it
  leaves has exactly these three watches.  Hence an event on a Deployment enqueues the
  identity of the Deployment itself; an event on a ConfigMap or a Secret enqueues, in
  its namespace, the name of every owner reference of kind Deployment that the object
  carries (non-controlling ones included), for an update those of the old object and
  those of the new one; and an event on an object of any other type enqueues nothing.
\<close>

theorem add_registers_watches:
  assumes "add New Watch mgr r = (None, res)"
    and "\<And>c. New ''deployment-controller'' mgr r = Inr c \<Longrightarrow> registered c = []"
    and "\<And>c src h c'. Watch c src h = (None, c') \<Longrightarrow> registered c' = registered c @ [(src, h)]"
  shows "\<exists>c c1 c2 c3.
           New ''deployment-controller'' mgr r = Inr c
         \<and> Watch c (Kind Deployment) EnqueueRequestForObject = (None, c1)
         \<and> Watch c1 (Kind ConfigMap) (EnqueueRequestForOwner False Deployment) = (None, c2)
         \<and> Watch c2 (Kind Secret) (EnqueueRequestForOwner False Deployment) = (None, c3)
         \<and> res = Some c3
         \<and> registered c3 = [(Kind Deployment, EnqueueRequestForObject),
                             (Kind ConfigMap, EnqueueRequestForOwner False Deployment),
                             (Kind Secret, EnqueueRequestForOwner False Deployment)]
         \<and> enqueued (registered c3) ev =
             (if of_type Deployment ev
              then map (\<lambda>ob. request_for (GetNamespace ob) (GetName ob)) (event_objects ev)
              else if of_type ConfigMap ev \<or> of_type Secret ev
              then concat (map (\<lambda>ob. map (\<lambda>ref. request_for (GetNamespace ob) (refName ref))
                                         (filter (\<lambda>ref. refKind ref = Deployment)
                                                 (GetOwnerReferences ob)))
                               (event_objects ev))
              else [])"
proof -
  from assms(1) obtain c c1 c2 c3 where
    n: "New ''deployment-controller'' mgr r = Inr c"
    and w1: "Watch c (Kind Deployment) EnqueueRequestForObject = (None, c1)"
    and w2: "Watch c1 (Kind ConfigMap) (EnqueueRequestForOwner False Deployment) = (None, c2)"
    and w3: "Watch c2 (Kind Secret) (EnqueueRequestForOwner False Deployment) = (None, c3)"
    and res: "res = Some c3"
    by (auto simp: add_def split: sum.splits prod.splits option.splits)
  have ws: "registered c3 = [(Kind Deployment, EnqueueRequestForObject),
                             (Kind ConfigMap, EnqueueRequestForOwner False Deployment),
                             (Kind Secret, EnqueueRequestForOwner False Deployment)]"
    using assms(2) [OF n] assms(3) [OF w1] assms(3) [OF w2] assms(3) [OF w3] by simp
  have types: "\<not> (of_type Deployment ev \<and> of_type ConfigMap ev)"
    "\<not> (of_type Deployment ev \<and> of_type Secret ev)"
    "\<not> (of_type ConfigMap ev \<and> of_type Secret ev)"
    by (cases ev; auto simp: of_type_def)+
  have en: "enqueued (registered c3) ev =
             (if of_type Deployment ev
              then map (\<lambda>ob. request_for (GetNamespace ob) (GetName ob)) (event_objects ev)
              else if of_type ConfigMap ev \<or> of_type Secret ev
              then concat (map (\<lambda>ob. map (\<lambda>ref. request_for (GetNamespace ob) (refName ref))
                                         (filter (\<lambda>ref. refKind ref = Deployment)
                                                 (GetOwnerReferences ob)))
                               (event_objects ev))
              else [])"
    unfolding ws using types
    by (cases ev) (auto simp: enqueued_def getOwnersReferences_def)
  from n w1 w2 w3 res ws en show ?thesis by blast
qed

theorem add_registers_watches_witness:
  "add tiny_New tiny_Watch () () =
     (None, Some [(Kind Deployment, EnqueueRequestForObject),
                  (Kind ConfigMap, EnqueueRequestForOwner False Deployment),
                  (Kind Secret, EnqueueRequestForOwner False Deployment)])
   \<and> enqueued [(Kind Deployment, EnqueueRequestForObject),
               (Kind ConfigMap, EnqueueRequestForOwner False Deployment),
               (Kind Secret, EnqueueRequestForOwner False Deployment)]
        (UpdateEvent tiny_configmap (tiny_configmap\<lparr>GetOwnerReferences := []\<rparr>))
       = [request_for ''default'' ''web'']"
proof -
  have a: "add tiny_New tiny_Watch () () =
     (None, Some [(Kind Deployment, EnqueueRequestForObject),
                  (Kind ConfigMap, EnqueueRequestForOwner False Deployment),
                  (Kind Secret, EnqueueRequestForOwner False Deployment)])"
    by (simp add: add_def tiny_New_def tiny_Watch_def)
  have w: "(\<lambda>c. c) c' = (\<lambda>c. c) c @ [(src, h)]" if "tiny_Watch c src h = (None, c')"
    for c c' src h
    using that by (simp add: tiny_Watch_def)
  have n': "(\<lambda>c. c) c = []" if "tiny_New ''deployment-controller'' () () = Inr c"
    for c :: "Watch list"
    using that by (simp add: tiny_New_def)
  from add_registers_watches [of tiny_New tiny_Watch "()" "()" _ "\<lambda>c. c"
         "UpdateEvent tiny_configmap (tiny_configmap\<lparr>GetOwnerReferences := []\<rparr>)", OF a n' w]
  obtain c3 where c3: "Some [(Kind Deployment, EnqueueRequestForObject),
                  (Kind ConfigMap, EnqueueRequestForOwner False Deployment),
                  (Kind Secret, EnqueueRequestForOwner False Deployment)] = Some c3"
    and e: "enqueued c3 (UpdateEvent tiny_configmap (tiny_configmap\<lparr>GetOwnerReferences := []\<rparr>)) =
             (if of_type Deployment (UpdateEvent tiny_configmap (tiny_configmap\<lparr>GetOwnerReferences := []\<rparr>))
              then map (\<lambda>ob. request_for (GetNamespace ob) (GetName ob))
                     (event_objects (UpdateEvent tiny_configmap (tiny_configmap\<lparr>GetOwnerReferences := []\<rparr>)))
              else if of_type ConfigMap (UpdateEvent tiny_configmap (tiny_configmap\<lparr>GetOwnerReferences := []\<rparr>))
                    \<or> of_type Secret (UpdateEvent tiny_configmap (tiny_configmap\<lparr>GetOwnerReferences := []\<rparr>))
              then concat (map (\<lambda>ob. map (\<lambda>ref. request_for (GetNamespace ob) (refName ref))
                                         (filter (\<lambda>ref. refKind ref = Deployment)
                                                 (GetOwnerReferences ob)))
                               (event_objects (UpdateEvent tiny_configmap (tiny_configmap\<lparr>GetOwnerReferences := []\<rparr>))))
              else [])"
    by blast
  from c3 have "c3 = [(Kind Deployment, EnqueueRequestForObject),
                  (Kind ConfigMap, EnqueueRequestForOwner False Deployment),
                  (Kind Secret, EnqueueRequestForOwner False Deployment)]" by simp
  with e a show ?thesis by (simp add: of_type_def tiny_configmap_def)
qed

section \<open>Properties of the test matchers\<close>

text \<open>
  C9.  Every attempt of Matcher.Update starts with a Get of the key.  If that Get fails,
  the attempt returns the Get's error, makes no other client call and leaves the store
  as it was.  If it succeeds, the attempt makes exactly one more call, an Update whose
  argument is the mutation function applied to the object just fetched, and returns
  that Update's error and store.
\<close>

theorem Update_attempt:
  fixes m :: "('w, 'e) Matcher"
  assumes "key = \<lparr>Namespace = GetNamespace obj, Name = GetName obj\<rparr>"
  shows "(Client_Get (Client m) key cur w = Inl err \<longrightarrow>
            Update m obj fn cur w =
              \<lparr>attemptErr = Some err, store = w, clientCalls = [GetCall key cur]\<rparr>)
       \<and> (Client_Get (Client m) key cur w = Inr fetched \<longrightarrow>
            Update m obj fn cur w =
              \<lparr>attemptErr = fst (Client_Update (Client m) (fn fetched) w),
               store = snd (Client_Update (Client m) (fn fetched) w),
               clientCalls = [GetCall key cur, UpdateCall (fn fetched)]\<rparr>)"
  using assms by (simp add: Update_def Let_def split: prod.splits)

theorem Update_attempt_witness:
  "Update tiny_matcher (zero_value ConfigMap\<lparr>GetName := ''app-config''\<rparr>) set_payload
      (zero_value ConfigMap) \<lparr>objects = [], reachable = True\<rparr> =
     \<lparr>attemptErr = Some StatusReasonNotFound, store = \<lparr>objects = [], reachable = True\<rparr>,
      clientCalls = [GetCall \<lparr>Namespace = [], Name = ''app-config''\<rparr> (zero_value ConfigMap)]\<rparr>
   \<and> Update tiny_matcher tiny_configmap set_payload tiny_configmap
        \<lparr>objects = [tiny_configmap], reachable = True\<rparr> =
     \<lparr>attemptErr = None,
      store = \<lparr>objects = [set_payload tiny_configmap], reachable = True\<rparr>,
      clientCalls = [GetCall \<lparr>Namespace = ''default'', Name = ''app-config''\<rparr> tiny_configmap,
                     UpdateCall (set_payload tiny_configmap)]\<rparr>"
proof -
  have g1: "Client_Get (Client tiny_matcher) \<lparr>Namespace = [], Name = ''app-config''\<rparr>
              (zero_value ConfigMap) \<lparr>objects = [], reachable = True\<rparr> = Inl StatusReasonNotFound"
    by (simp add: tiny_matcher_def tiny_Get_def)
  have g2: "Client_Get (Client tiny_matcher) \<lparr>Namespace = ''default'', Name = ''app-config''\<rparr>
              tiny_configmap \<lparr>objects = [tiny_configmap], reachable = True\<rparr> = Inr tiny_configmap"
    by (simp add: tiny_matcher_def tiny_Get_def tiny_configmap_def)
  have u2: "Client_Update (Client tiny_matcher) (set_payload tiny_configmap)
              \<lparr>objects = [tiny_configmap], reachable = True\<rparr>
            = (None, \<lparr>objects = [set_payload tiny_configmap], reachable = True\<rparr>)"
    by (simp add: tiny_matcher_def tiny_Update_def same_object_def set_payload_def)
  have k1: "\<lparr>Namespace = [], Name = ''app-config''\<rparr> =
            \<lparr>Namespace = GetNamespace (zero_value ConfigMap\<lparr>GetName := ''app-config''\<rparr>),
             Name = GetName (zero_value ConfigMap\<lparr>GetName := ''app-config''\<rparr>)\<rparr>"
    by (simp add: zero_value_def)
  have k2: "\<lparr>Namespace = ''default'', Name = ''app-config''\<rparr> =
            \<lparr>Namespace = GetNamespace tiny_configmap, Name = GetName tiny_configmap\<rparr>"
    by (simp add: tiny_configmap_def)
  from Update_attempt [OF k1, of tiny_matcher "zero_value ConfigMap"
         "\<lparr>objects = [], reachable = True\<rparr>" StatusReasonNotFound set_payload] g1
  have a1: "Update tiny_matcher (zero_value ConfigMap\<lparr>GetName := ''app-config''\<rparr>) set_payload
      (zero_value ConfigMap) \<lparr>objects = [], reachable = True\<rparr> =
     \<lparr>attemptErr = Some StatusReasonNotFound, store = \<lparr>objects = [], reachable = True\<rparr>,
      clientCalls = [GetCall \<lparr>Namespace = [], Name = ''app-config''\<rparr> (zero_value ConfigMap)]\<rparr>"
    by simp
  from Update_attempt [OF k2, of tiny_matcher tiny_configmap
         "\<lparr>objects = [tiny_configmap], reachable = True\<rparr>" _ set_payload tiny_configmap] g2 u2
  have a2: "Update tiny_matcher tiny_configmap set_payload tiny_configmap
        \<lparr>objects = [tiny_configmap], reachable = True\<rparr> =
     \<lparr>attemptErr = None,
      store = \<lparr>objects = [set_payload tiny_configmap], reachable = True\<rparr>,
      clientCalls = [GetCall \<lparr>Namespace = ''default'', Name = ''app-config''\<rparr> tiny_configmap,
                     UpdateCall (set_payload tiny_configmap)]\<rparr>"
    by simp
  from a1 a2 show ?thesis by simp
qed

text \<open>
  C10.  For an object of type Deployment, StatefulSet, DaemonSet, ConfigMap or Secret,
  Eventually does not panic and the closure it hands to gomega is: Get the key into a
  fresh object of that same type, panic with the Get's error if there is one, else
  return the object; none of the two unknown-type panics can occur.  For an object of
  any other type that is not a list, either Eventually itself panics with
  ``Unknown object.'' (the type has no object metadata), or every run of the closure
  panics with ``Unknown Object type.''.
\<close>

theorem Eventually_dispatch:
  fixes m :: "('w, 'e) Matcher"
  assumes "objType obj = t" and "key = \<lparr>Namespace = GetNamespace obj, Name = GetName obj\<rparr>"
  shows "(t \<in> {Deployment, StatefulSet, DaemonSet, ConfigMap, Secret} \<longrightarrow>
            Eventually m obj =
              Inr (\<lambda>w. case Client_Get (Client m) key (zero_value t) w of
                          Inl err \<Rightarrow> Inl (PanicError err)
                        | Inr u \<Rightarrow> Inr u))
       \<and> (t \<notin> {Deployment, StatefulSet, DaemonSet, ConfigMap, Secret} \<and> \<not> IsListType t \<longrightarrow>
            Eventually m obj =
              (if implementsObject t then Inr (\<lambda>w. Inl (PanicString ''Unknown Object type.''))
               else Inl (PanicString ''Unknown object.'')))"
proof (cases t)
  case (OtherType isList hasMeta n)
  with assms show ?thesis
    by (auto simp: Eventually_def eventuallyObject_def Let_def)
qed (use assms in \<open>auto simp: Eventually_def eventuallyObject_def Let_def\<close>)

theorem Eventually_dispatch_witness:
  "Eventually tiny_matcher tiny_configmap =
     Inr (\<lambda>w. case tiny_Get \<lparr>Namespace = ''default'', Name = ''app-config''\<rparr>
                      (zero_value ConfigMap) w of
                 Inl err \<Rightarrow> Inl (PanicError err)
               | Inr u \<Rightarrow> Inr u)
   \<and> Eventually tiny_matcher (zero_value (OtherType False True ''Pod'')) =
       Inr (\<lambda>w. Inl (PanicString ''Unknown Object type.''))
   \<and> Eventually tiny_matcher (zero_value (OtherType False False ''Status'')) =
       Inl (PanicString ''Unknown object.'')"
proof -
  have t1: "objType tiny_configmap = ConfigMap"
    and k1: "\<lparr>Namespace = ''default'', Name = ''app-config''\<rparr> =
             \<lparr>Namespace = GetNamespace tiny_configmap, Name = GetName tiny_configmap\<rparr>"
    by (simp_all add: tiny_configmap_def)
  have t2: "objType (zero_value (OtherType False True ''Pod'')) = OtherType False True ''Pod''"
    and t3: "objType (zero_value (OtherType False False ''Status'')) =
               OtherType False False ''Status''"
    by (simp_all add: zero_value_def)
  from Eventually_dispatch [OF t1 k1, of tiny_matcher]
  have a1: "Eventually tiny_matcher tiny_configmap =
     Inr (\<lambda>w. case tiny_Get \<lparr>Namespace = ''default'', Name = ''app-config''\<rparr>
                      (zero_value ConfigMap) w of
                 Inl err \<Rightarrow> Inl (PanicError err)
               | Inr u \<Rightarrow> Inr u)"
    by (simp add: tiny_matcher_def)
  from Eventually_dispatch [OF t2 refl, of tiny_matcher]
  have a2: "Eventually tiny_matcher (zero_value (OtherType False True ''Pod'')) =
       Inr (\<lambda>w. Inl (PanicString ''Unknown Object type.''))"
    by simp
  from Eventually_dispatch [OF t3 refl, of tiny_matcher]
  have a3: "Eventually tiny_matcher (zero_value (OtherType False False ''Status'')) =
       Inl (PanicString ''Unknown object.'')"
    by simp
  from a1 a2 a3 show ?thesis by simp
qed

section \<open>Properties of the reconciliation engine\<close>

subsection \<open>Extraction and fingerprint\<close>

lemma kind_name_inj: "kind_name a = kind_name b \<Longrightarrow> a = b"
  by (cases a; cases b) simp_all

lemma ref_key_merge_required [simp]: "ref_key (merge_required occs r) = ref_key r"
  by (simp add: merge_required_def ref_key_def)

lemma merge_required_set: "set occs = set occs' \<Longrightarrow> merge_required occs = merge_required occs'"
  by (rule ext) (simp add: merge_required_def list_ex_iff)

lemma ref_key_inj_merged: "inj_on ref_key (merge_required occs ` A)"
proof (rule inj_onI)
  fix x y
  assume "x \<in> merge_required occs ` A" "y \<in> merge_required occs ` A"
    and k: "ref_key x = ref_key y"
  then obtain a b where x: "x = merge_required occs a" and y: "y = merge_required occs b"
    by blast
  from k x y have kab: "ref_key a = ref_key b" by simp
  then have "ref_kind a = ref_kind b" "ref_name a = ref_name b"
    by (auto simp: ref_key_def dest: kind_name_inj)
  with kab show "x = y"
    unfolding x y by (simp add: merge_required_def)
qed

lemma sort_key_unique:
  assumes "inj_on f (set xs)" "distinct xs" "distinct ys" "set xs = set ys"
  shows "sort_key f xs = sort_key f ys"
proof (rule map_sorted_distinct_set_unique [where f = f])
  show "inj_on f (set (sort_key f xs) \<union> set (sort_key f ys))" using assms by simp
  show "distinct (map f (sort_key f xs))" using assms by (simp add: distinct_map)
  show "distinct (map f (sort_key f ys))" using assms by (simp add: distinct_map)
  show "set (sort_key f xs) = set (sort_key f ys)" using assms by simp
qed simp_all

lemma Extract_mentions:
  assumes "set (mentions T) = set (mentions T')"
  shows "Extract T = Extract T'"
proof -
  have m: "merge_required (mentions T) = merge_required (mentions T')"
    using assms by (rule merge_required_set)
  show ?thesis
    unfolding Extract_def
    by (rule sort_key_unique) (simp_all add: m assms ref_key_inj_merged)
qed

lemma same_entries_sort: "same_entries c c' \<Longrightarrow> sort_key fst c = sort_key fst c'"
  unfolding same_entries_def
  by (intro sort_key_unique) (auto simp: distinct_map)

lemma same_entries_serialize:
  "same_entries c c' \<Longrightarrow> serialize_ref r c = serialize_ref r c'"
  by (simp add: serialize_ref_def serialize_content_def same_entries_sort)

lemma same_contents_lookup:
  assumes "same_contents C C'"
  shows "rel_option same_entries (map_of C k) (map_of C' k)"
proof (cases "map_of C k")
  case None
  have "map_of C' k = None"
  proof (rule ccontr)
    assume "map_of C' k \<noteq> None"
    then obtain c' where "(k, c') \<in> set C'" by (auto dest: map_of_SomeD)
    with assms have "map_of C k \<noteq> None" by (auto simp: same_contents_def list_all_iff)
    with None show False by simp
  qed
  with None show ?thesis by simp
next
  case (Some c)
  then have "(k, c) \<in> set C" by (rule map_of_SomeD)
  with assms obtain c' where "map_of C' k = Some c'" "same_entries c c'"
    by (auto simp: same_contents_def list_all_iff split: option.splits)
  with Some show ?thesis by simp
qed

lemma byte_stream_same_contents:
  assumes "same_contents C C'"
  shows "byte_stream refs C = byte_stream refs C'"
proof (induction refs)
  case Nil
  show ?case by simp
next
  case (Cons r rs)
  from same_contents_lookup [OF assms, of "ref_id r"] Cons show ?case
    by (cases "map_of C (ref_id r)"; cases "map_of C' (ref_id r)")
       (auto simp: same_entries_serialize split: sum.splits)
qed

lemma byte_stream_missing:
  "find (\<lambda>r. required r \<and> map_of C (ref_id r) = None) refs = Some r \<Longrightarrow>
   byte_stream refs C = Inl (MissingDependency (ref_kind r) (ref_name r))"
  by (induction refs) (auto split: if_splits option.splits)

lemma byte_stream_present:
  "find (\<lambda>r. required r \<and> map_of C (ref_id r) = None) refs = None \<Longrightarrow>
   byte_stream refs C =
     Inr (concat (map (\<lambda>r. serialize_ref r (case map_of C (ref_id r) of None \<Rightarrow> [] | Some c \<Rightarrow> c)) refs))"
  by (induction refs) (auto split: if_splits option.splits)

lemma fetch_missing:
  "find (\<lambda>r. required r \<and> map_of deps (dep_of ow r) = None) refs = Some r \<Longrightarrow>
   fetchDependencies ow refs deps = Inl (MissingDependency (ref_kind r) (ref_name r))"
  by (induction refs) (auto split: if_splits option.splits)

lemma fetch_present:
  "find (\<lambda>r. required r \<and> map_of deps (dep_of ow r) = None) refs = None \<Longrightarrow>
   fetchDependencies ow refs deps = Inr (fetched_contents ow refs deps)"
  by (induction refs) (auto simp: fetched_contents_def split: if_splits option.splits)

lemma dep_of_ref_id: "ref_id r = ref_id r' \<Longrightarrow> dep_of ow r = dep_of ow r'"
  by (simp add: ref_id_def dep_of_def)

lemma fetched_keys:
  "i \<in> fst ` set (fetched_contents ow refs deps) \<Longrightarrow>
   \<exists>r \<in> set refs. ref_id r = i \<and> map_of deps (dep_of ow r) \<noteq> None"
  by (induction refs) (auto simp: fetched_contents_def split: option.splits)

lemma fetched_absent:
  assumes "map_of deps (dep_of ow r) = None"
  shows "map_of (fetched_contents ow refs deps) (ref_id r) = None"
proof -
  have "ref_id r \<notin> fst ` set (fetched_contents ow refs deps)"
  proof
    assume "ref_id r \<in> fst ` set (fetched_contents ow refs deps)"
    then obtain x where "ref_id x = ref_id r" "map_of deps (dep_of ow x) \<noteq> None"
      using fetched_keys by blast
    with assms dep_of_ref_id [of x r ow] show False by simp
  qed
  then show ?thesis by (simp add: map_of_eq_None_iff)
qed

lemma map_of_fetched:
  "r \<in> set refs \<Longrightarrow>
   map_of (fetched_contents ow refs deps) (ref_id r) = map_option data (map_of deps (dep_of ow r))"
proof (induction refs)
  case Nil
  then show ?case by simp
next
  case (Cons x xs)
  have tail: "fetched_contents ow (x # xs) deps =
      (case map_of deps (dep_of ow x) of None \<Rightarrow> [] | Some d \<Rightarrow> [(ref_id x, data d)]) @ fetched_contents ow xs deps"
    by (simp add: fetched_contents_def)
  show ?case
  proof (cases "ref_id x = ref_id r")
    case True
    then have same: "dep_of ow x = dep_of ow r" by (rule dep_of_ref_id)
    show ?thesis
    proof (cases "map_of deps (dep_of ow r)")
      case None
      with same fetched_absent [OF None, of xs] show ?thesis by (simp add: tail)
    next
      case (Some d)
      with same True show ?thesis by (simp add: tail)
    qed
  next
    case False
    with Cons have "r \<in> set xs" by auto
    with Cons.IH False show ?thesis by (auto simp: tail split: option.splits)
  qed
qed

lemma find_cong_set: "(\<And>x. x \<in> set xs \<Longrightarrow> P x = Q x) \<Longrightarrow> find P xs = find Q xs"
  by (induction xs) auto

lemma concat_map_cong_set:
  "(\<And>x. x \<in> set xs \<Longrightarrow> f x = g x) \<Longrightarrow> concat (map f xs) = concat (map g xs)"
  by (induction xs) auto

lemma Fingerprint_fetched:
  assumes "find (\<lambda>r. required r \<and> map_of deps (dep_of ow r) = None) refs = None"
  shows "Fingerprint digest refs (fetched_contents ow refs deps) = Inr (expected_fingerprint digest ow refs deps)"
proof -
  have "find (\<lambda>r. required r \<and> map_of (fetched_contents ow refs deps) (ref_id r) = None) refs
        = find (\<lambda>r. required r \<and> map_of deps (dep_of ow r) = None) refs"
    by (rule find_cong_set) (simp add: map_of_fetched)
  with assms have "byte_stream refs (fetched_contents ow refs deps) =
     Inr (concat (map (\<lambda>r. serialize_ref r
        (case map_of (fetched_contents ow refs deps) (ref_id r) of None \<Rightarrow> [] | Some c \<Rightarrow> c)) refs))"
    by (simp add: byte_stream_present)
  also have "concat (map (\<lambda>r. serialize_ref r
        (case map_of (fetched_contents ow refs deps) (ref_id r) of None \<Rightarrow> [] | Some c \<Rightarrow> c)) refs)
     = concat (map (\<lambda>r. serialize_ref r (case map_of deps (dep_of ow r) of
                                                   None \<Rightarrow> [] | Some d \<Rightarrow> data d)) refs)"
    by (rule concat_map_cong_set) (simp add: map_of_fetched split: option.splits)
  finally show ?thesis
    by (simp add: Fingerprint_def expected_fingerprint_def)
qed

lemma map_of_apply_mutation:
  "map_of (apply_mutation m deps) k =
     (if k = target m then map_option (patch m) (map_of deps k) else map_of deps k)"
  by (simp add: apply_mutation_def map_of_map_entry split: option.splits)

lemma keys_apply_mutation [simp]: "map fst (apply_mutation m deps) = map fst deps"
  unfolding apply_mutation_def by (induction deps) auto

lemma keys_apply_mutations [simp]: "map fst (apply_mutations ms deps) = map fst deps"
  by (induction ms arbitrary: deps) simp_all

lemma data_patch [simp]: "data (patch m d) = data d"
  by (cases m) simp_all

lemma map_of_apply_mutations_data:
  "map_option data (map_of (apply_mutations ms deps) k) = map_option data (map_of deps k)"
  by (induction ms arbitrary: deps) (simp_all add: map_of_apply_mutation option.map_comp comp_def)

lemma present_apply_mutations:
  "map_of (apply_mutations ms deps) k = None \<longleftrightarrow> map_of deps k = None"
  using map_of_apply_mutations_data [of ms deps k] by (metis option.map_disc_iff)





lemma has_edge_patch_add [simp]: "has_edge ow (patch (AddEdge k ow) d)"
  by (simp add: has_edge_def)

lemma has_edge_patch_remove [simp]: "\<not> has_edge ow (patch (RemoveEdge k ow) d)"
  by (simp add: has_edge_def)

lemma edge_at_apply_mutation:
  "edge_at (apply_mutation m deps) ow k =
     (if k = target m then (case map_of deps k of None \<Rightarrow> False | Some d \<Rightarrow> has_edge ow (patch m d))
      else edge_at deps ow k)"
  by (simp add: edge_at_def map_of_apply_mutation split: option.splits)

lemma edge_after_mutations:
  assumes "\<forall>m \<in> set ms. m = AddEdge (target m) ow \<or> m = RemoveEdge (target m) ow"
    and "\<forall>k. \<not> (AddEdge k ow \<in> set ms \<and> RemoveEdge k ow \<in> set ms)"
  shows "edge_at (apply_mutations ms deps) ow k \<longleftrightarrow>
           map_of deps k \<noteq> None
           \<and> (AddEdge k ow \<in> set ms \<or> (RemoveEdge k ow \<notin> set ms \<and> edge_at deps ow k))"
  using assms
proof (induction ms arbitrary: deps)
  case Nil
  then show ?case by (auto simp: edge_at_def split: option.splits)
next
  case (Cons m ms)
  have ih: "edge_at (apply_mutations ms (apply_mutation m deps)) ow k \<longleftrightarrow>
           map_of (apply_mutation m deps) k \<noteq> None
           \<and> (AddEdge k ow \<in> set ms \<or> (RemoveEdge k ow \<notin> set ms \<and> edge_at (apply_mutation m deps) ow k))"
    using Cons.prems by (intro Cons.IH) auto
  have pres: "map_of (apply_mutation m deps) k \<noteq> None \<longleftrightarrow> map_of deps k \<noteq> None"
    by (simp add: map_of_apply_mutation)
  from Cons.prems(1) consider (add) k0 where "m = AddEdge k0 ow" | (rem) k0 where "m = RemoveEdge k0 ow"
    by (cases m) auto
  then show ?case
  proof cases
    case add
    with Cons.prems(2) have "RemoveEdge k0 ow \<notin> set ms" by auto
    with add show ?thesis
      unfolding apply_mutations.simps ih pres
      by (auto simp: edge_at_apply_mutation simp del: patch.simps split: option.splits)
  next
    case rem
    with Cons.prems(2) have "AddEdge k0 ow \<notin> set ms" by auto
    with rem show ?thesis
      unfolding apply_mutations.simps ih pres
      by (auto simp: edge_at_apply_mutation simp del: patch.simps split: option.splits)
  qed
qed

lemma map_of_Some_key: "map_of xs k = Some v \<Longrightarrow> k \<in> fst ` set xs"
  by (metis domI dom_map_of_conv_image_fst)

lemma set_stale_edges:
  "set (stale_edges ow refs cur) =
     {RemoveEdge k ow | k. edge_at cur ow k \<and> k \<notin> dep_of ow ` set refs}"
  unfolding stale_edges_def edge_at_def
  by (auto split: option.splits dest: map_of_Some_key)

lemma missing_edges_set:
  "missing_edges ow refs cur = Inr adds \<Longrightarrow>
   set adds = {AddEdge (dep_of ow r) ow | r. r \<in> set refs \<and> map_of cur (dep_of ow r) \<noteq> None
                                            \<and> \<not> edge_at cur ow (dep_of ow r)}
   \<and> (\<forall>r \<in> set refs. required r \<longrightarrow> map_of cur (dep_of ow r) \<noteq> None)"
proof (induction refs arbitrary: adds)
  case Nil
  then show ?case by simp
next
  case (Cons r rs)
  show ?case
  proof (cases "map_of cur (dep_of ow r)")
    case None
    with Cons.prems have nr: "\<not> required r" and rest: "missing_edges ow rs cur = Inr adds"
      by (auto split: if_splits)
    from Cons.IH [OF rest] None nr show ?thesis by (auto simp: edge_at_def)
  next
    case (Some d)
    show ?thesis
    proof (cases "has_edge ow d")
      case True
      with Some Cons.prems have rest: "missing_edges ow rs cur = Inr adds" by simp
      from Cons.IH [OF rest] Some True show ?thesis by (auto simp: edge_at_def)
    next
      case False
      with Some Cons.prems obtain ms where rest: "missing_edges ow rs cur = Inr ms"
        and adds: "adds = AddEdge (dep_of ow r) ow # ms"
        by (auto split: sum.splits)
      from Cons.IH [OF rest] Some False show ?thesis
        unfolding adds by (auto simp: edge_at_def)
    qed
  qed
qed

lemma Sync_closure:
  assumes "Sync ow refs cur = Inr ms"
  shows "edge_at (apply_mutations ms cur) ow k \<longleftrightarrow>
           map_of cur k \<noteq> None \<and> k \<in> dep_of ow ` set refs"
proof -
  from assms obtain adds where adds: "missing_edges ow refs cur = Inr adds"
    and ms: "ms = stale_edges ow refs cur @ adds"
    by (auto simp: Sync_def split: sum.splits)
  note A = missing_edges_set [OF adds, THEN conjunct1]
  note R = set_stale_edges [of ow refs cur]
  have owner: "\<forall>m \<in> set ms. m = AddEdge (target m) ow \<or> m = RemoveEdge (target m) ow"
    unfolding ms using A R by auto
  have disj: "\<forall>k. \<not> (AddEdge k ow \<in> set ms \<and> RemoveEdge k ow \<in> set ms)"
    unfolding ms using A R by auto
  have "edge_at (apply_mutations ms cur) ow k \<longleftrightarrow>
           map_of cur k \<noteq> None
           \<and> (AddEdge k ow \<in> set ms \<or> (RemoveEdge k ow \<notin> set ms \<and> edge_at cur ow k))"
    by (rule edge_after_mutations [OF owner disj])
  also have "\<dots> \<longleftrightarrow> map_of cur k \<noteq> None \<and> k \<in> dep_of ow ` set refs"
    unfolding ms using A R by (auto simp: edge_at_def split: option.splits)
  finally show ?thesis .
qed




lemma mentions_setConfigHash [simp]: "mentions (setConfigHash fp T) = mentions T"
  by (simp add: mentions_def setConfigHash_def)

lemma Extract_setConfigHash [simp]: "Extract (setConfigHash fp T) = Extract T"
  by (simp add: Extract_def)

lemma annotation_setConfigHash [simp]:
  "map_of (annotations (setConfigHash fp T)) ConfigHashAnnotation = Some fp"
  by (simp add: setConfigHash_def update_conv')

lemma missing_edges_succeeds:
  "find (\<lambda>r. required r \<and> map_of cur (dep_of ow r) = None) refs = None \<Longrightarrow>
   \<exists>adds. missing_edges ow refs cur = Inr adds"
  by (induction refs) (auto split: if_splits option.splits)

lemma Sync_succeeds:
  "find (\<lambda>r. required r \<and> map_of cur (dep_of ow r) = None) refs = None \<Longrightarrow>
   \<exists>ms. Sync ow refs cur = Inr ms"
  using missing_edges_succeeds [of cur ow refs] by (auto simp: Sync_def)

lemma answer_error_None [simp]: "answer_error a = None \<longleftrightarrow> a = Accepted"
  by (cases a) simp_all

lemma answer_error_not_missing [simp]: "answer_error a \<noteq> Some (MissingDependency k n)"
  by (cases a) simp_all

lemma first_rejection_update_log:
  "first_rejection (update_log answer ms) = None
   \<longleftrightarrow> (\<forall>m \<in> set ms. answer (DependencyWrite (target m)) = Accepted)"
proof (cases "find (\<lambda>(w, a). a \<noteq> Accepted) (update_log answer ms)")
  case None
  then have "first_rejection (update_log answer ms) = None"
    by (simp add: first_rejection_def)
  moreover from None have "\<forall>m \<in> set ms. answer (DependencyWrite (target m)) = Accepted"
    by (auto simp: find_None_iff update_log_def)
  ultimately show ?thesis by simp
next
  case (Some p)
  obtain w a where p: "p = (w, a)" by (cases p)
  from Some p have na: "a \<noteq> Accepted" and "(w, a) \<in> set (update_log answer ms)"
    by (auto simp: find_Some_iff in_set_conv_nth)
  then have "\<exists>m \<in> set ms. answer (DependencyWrite (target m)) \<noteq> Accepted"
    by (auto simp: update_log_def)
  moreover from Some p na have "first_rejection (update_log answer ms) \<noteq> None"
    by (simp add: first_rejection_def)
  ultimately show ?thesis by blast
qed

lemma first_rejection_not_missing: "first_rejection log \<noteq> Some (MissingDependency k n)"
  by (auto simp: first_rejection_def split: option.splits)

lemma apply_accepted_all:
  "\<forall>m \<in> set ms. answer (DependencyWrite (target m)) = Accepted \<Longrightarrow>
   apply_accepted answer ms deps = apply_mutations ms deps"
  by (induction ms arbitrary: deps) simp_all

lemma update_log_all:
  "\<forall>m \<in> set ms. answer (DependencyWrite (target m)) = Accepted \<Longrightarrow>
   update_log answer ms = map (\<lambda>m. (DependencyWrite (target m), Accepted)) ms"
  by (simp add: update_log_def)

lemma Orchestrator_absent:
  "map_of (owners s) ow = None \<Longrightarrow>
   Orchestrator digest answer ow s =
     \<lparr>result = None, requeue = False, final = s, writes = [], events = []\<rparr>"
  by (simp add: Orchestrator_def)

lemma Orchestrator_missing:
  assumes "map_of (owners s) ow = Some T"
    and "find (\<lambda>r. required r \<and> map_of (dependencies s) (dep_of ow r) = None) (Extract T) = Some r"
  shows "Orchestrator digest answer ow s =
           failed ow (MissingDependency (ref_kind r) (ref_name r)) s []"
  using assms by (simp add: Orchestrator_def fetch_missing)

lemma Orchestrator_rejected:
  assumes own: "map_of (owners s) ow = Some T"
    and ok: "find (\<lambda>r. required r \<and> map_of (dependencies s) (dep_of ow r) = None) (Extract T) = None"
    and fp: "fp = expected_fingerprint digest ow (Extract T) (dependencies s)"
    and changed: "map_of (annotations T) ConfigHashAnnotation \<noteq> Some fp"
    and rej: "answer_error (answer (OwnerWrite ow)) = Some e"
  shows "Orchestrator digest answer ow s = failed ow e s [(OwnerWrite ow, answer (OwnerWrite ow))]"
  using own changed rej
  by (simp add: Orchestrator_def fetch_present [OF ok] Fingerprint_fetched [OF ok] fp [symmetric] Let_def)

lemma Orchestrator_sent:
  assumes own: "map_of (owners s) ow = Some T"
    and ok: "find (\<lambda>r. required r \<and> map_of (dependencies s) (dep_of ow r) = None) (Extract T) = None"
    and sync: "Sync ow (Extract T) (dependencies s) = Inr ms"
    and fp: "fp = expected_fingerprint digest ow (Extract T) (dependencies s)"
    and oacc: "map_of (annotations T) ConfigHashAnnotation \<noteq> Some fp \<longrightarrow> answer (OwnerWrite ow) = Accepted"
  shows "writes (Orchestrator digest answer ow s) =
           (if map_of (annotations T) ConfigHashAnnotation = Some fp then []
            else [(OwnerWrite ow, Accepted)]) @ update_log answer ms"
    and "result (Orchestrator digest answer ow s) = first_rejection (update_log answer ms)"
  using own sync oacc
  by (auto simp: Orchestrator_def fetch_present [OF ok] Fingerprint_fetched [OF ok] fp [symmetric]
        Let_def failed_def split: option.splits)

lemma Orchestrator_success:
  assumes own: "map_of (owners s) ow = Some T"
    and ok: "find (\<lambda>r. required r \<and> map_of (dependencies s) (dep_of ow r) = None) (Extract T) = None"
    and sync: "Sync ow (Extract T) (dependencies s) = Inr ms"
    and fp: "fp = expected_fingerprint digest ow (Extract T) (dependencies s)"
    and oacc: "map_of (annotations T) ConfigHashAnnotation \<noteq> Some fp \<longrightarrow> answer (OwnerWrite ow) = Accepted"
    and dacc: "\<forall>m \<in> set ms. answer (DependencyWrite (target m)) = Accepted"
  shows "Orchestrator digest answer ow s =
     (if map_of (annotations T) ConfigHashAnnotation = Some fp
      then \<lparr>result = None, requeue = False,
            final = s\<lparr>dependencies := apply_mutations ms (dependencies s)\<rparr>,
            writes = map (\<lambda>m. (DependencyWrite (target m), Accepted)) ms,
            events = [(ow, Unchanged)]\<rparr>
      else \<lparr>result = None, requeue = False,
            final = s\<lparr>owners := AList.update ow (setConfigHash fp T) (owners s),
                      dependencies := apply_mutations ms (dependencies s)\<rparr>,
            writes = (OwnerWrite ow, Accepted) # map (\<lambda>m. (DependencyWrite (target m), Accepted)) ms,
            events = [(ow, Rolled)]\<rparr>)"
proof -
  have none: "first_rejection (update_log answer ms) = None"
    using dacc by (simp add: first_rejection_update_log)
  show ?thesis
    using own sync oacc none
    by (simp add: Orchestrator_def fetch_present [OF ok] Fingerprint_fetched [OF ok] fp [symmetric]
          Let_def apply_accepted_all [OF dacc] update_log_all [OF dacc])
qed

lemma Orchestrator_accepted:
  assumes own: "map_of (owners s) ow = Some T"
    and ok: "find (\<lambda>r. required r \<and> map_of (dependencies s) (dep_of ow r) = None) (Extract T) = None"
    and sync: "Sync ow (Extract T) (dependencies s) = Inr ms"
    and fp: "fp = expected_fingerprint digest ow (Extract T) (dependencies s)"
    and acc: "list_all (\<lambda>(w, a). a = Accepted) (writes (Orchestrator digest answer ow s))"
  shows "map_of (annotations T) ConfigHashAnnotation \<noteq> Some fp \<longrightarrow> answer (OwnerWrite ow) = Accepted"
    and "\<forall>m \<in> set ms. answer (DependencyWrite (target m)) = Accepted"
proof -
  show oacc: "map_of (annotations T) ConfigHashAnnotation \<noteq> Some fp \<longrightarrow> answer (OwnerWrite ow) = Accepted"
  proof (intro impI, rule ccontr)
    assume changed: "map_of (annotations T) ConfigHashAnnotation \<noteq> Some fp"
      and "answer (OwnerWrite ow) \<noteq> Accepted"
    then obtain e where "answer_error (answer (OwnerWrite ow)) = Some e"
      by (cases "answer (OwnerWrite ow)") simp_all
    from Orchestrator_rejected [where answer = answer, OF own ok fp changed this] acc \<open>answer (OwnerWrite ow) \<noteq> Accepted\<close>
    show False by (simp add: failed_def)
  qed
  from Orchestrator_sent(1) [where answer = answer, OF own ok sync fp oacc] acc
  show "\<forall>m \<in> set ms. answer (DependencyWrite (target m)) = Accepted"
    by (auto simp: update_log_def list_all_iff split: if_splits)
qed

lemma Orchestrator_result_None:
  assumes own: "map_of (owners s) ow = Some T"
    and ok: "find (\<lambda>r. required r \<and> map_of (dependencies s) (dep_of ow r) = None) (Extract T) = None"
    and sync: "Sync ow (Extract T) (dependencies s) = Inr ms"
    and fp: "fp = expected_fingerprint digest ow (Extract T) (dependencies s)"
    and res: "result (Orchestrator digest answer ow s) = None"
  shows "map_of (annotations T) ConfigHashAnnotation \<noteq> Some fp \<longrightarrow> answer (OwnerWrite ow) = Accepted"
    and "\<forall>m \<in> set ms. answer (DependencyWrite (target m)) = Accepted"
proof -
  show oacc: "map_of (annotations T) ConfigHashAnnotation \<noteq> Some fp \<longrightarrow> answer (OwnerWrite ow) = Accepted"
  proof (intro impI, rule ccontr)
    assume changed: "map_of (annotations T) ConfigHashAnnotation \<noteq> Some fp"
      and "answer (OwnerWrite ow) \<noteq> Accepted"
    then obtain e where "answer_error (answer (OwnerWrite ow)) = Some e"
      by (cases "answer (OwnerWrite ow)") simp_all
    from Orchestrator_rejected [where answer = answer, OF own ok fp changed this] res
    show False by (simp add: failed_def)
  qed
  from Orchestrator_sent(2) [where answer = answer, OF own ok sync fp oacc] res
  have "first_rejection (update_log answer ms) = None" by simp
  then show "\<forall>m \<in> set ms. answer (DependencyWrite (target m)) = Accepted"
    by (simp add: first_rejection_update_log)
qed

lemma Orchestrator_not_missing:
  assumes own: "map_of (owners s) ow = Some T"
    and ok: "find (\<lambda>r. required r \<and> map_of (dependencies s) (dep_of ow r) = None) (Extract T) = None"
  shows "result (Orchestrator digest answer ow s) \<noteq> Some (MissingDependency k n)"
proof -
  define fp where "fp = expected_fingerprint digest ow (Extract T) (dependencies s)"
  from Sync_succeeds [OF ok] obtain ms where sync: "Sync ow (Extract T) (dependencies s) = Inr ms"
    by blast
  show ?thesis
  proof (cases "map_of (annotations T) ConfigHashAnnotation \<noteq> Some fp
                \<and> answer (OwnerWrite ow) \<noteq> Accepted")
    case True
    then obtain e where e: "answer_error (answer (OwnerWrite ow)) = Some e"
      by (cases "answer (OwnerWrite ow)") simp_all
    from True have changed: "map_of (annotations T) ConfigHashAnnotation \<noteq> Some fp" by simp
    from Orchestrator_rejected [where answer = answer, OF own ok fp_def changed e]
      answer_error_not_missing [of "answer (OwnerWrite ow)" k n] e
    show ?thesis by (auto simp: failed_def)
  next
    case False
    then have "map_of (annotations T) ConfigHashAnnotation \<noteq> Some fp \<longrightarrow> answer (OwnerWrite ow) = Accepted"
      by blast
    from Orchestrator_sent(2) [where answer = answer, OF own ok sync fp_def this] show ?thesis
      by (simp add: first_rejection_not_missing)
  qed
qed




subsection \<open>The claimed properties\<close>

text \<open>
  C4.  Fingerprint determinism.  Let two pod templates mention the same configuration
  objects, in any order and any number of times across their volumes, projections
  and containers, and let two fetch results hold the same contents, in any fetch order
  and with the entries of each content in any iteration order.  Then the fingerprint
  of the one extraction over the one fetch result equals the fingerprint of the other
  over the other; with the same template and the same result on both sides, two
  evaluations agree.
\<close>

theorem Fingerprint_deterministic:
  assumes "set (mentions T) = set (mentions T')" and "same_contents C C'"
  shows "Fingerprint digest (Extract T) C = Fingerprint digest (Extract T') C'"
  using Extract_mentions [OF assms(1)] byte_stream_same_contents [OF assms(2)]
  by (simp add: Fingerprint_def)

theorem Fingerprint_deterministic_witness:
  "set (mentions template_a) = set (mentions template_b)
   \<and> same_contents contents_a contents_b
   \<and> Fingerprint (\<lambda>s. s) (Extract template_a) contents_a
       = Fingerprint (\<lambda>s. s) (Extract template_b) contents_b"
proof -
  have m: "set (mentions template_a) = set (mentions template_b)" by code_simp
  have c: "same_contents contents_a contents_b" by code_simp
  from Fingerprint_deterministic [OF m c] m c show ?thesis by simp
qed

text \<open>
  C5.  Missing dependencies.  If some required reference has no fetched content,
  Fingerprint fails with MissingDependency carrying the identity of the first such
  reference; if none has, it succeeds and every absent (hence optional) reference
  contributes empty content.  Likewise for a reconciliation of an existing Owner,
  whatever the store answers to updates: if the Dependency of a required extracted
  reference is absent from the store, the Orchestrator returns MissingDependency with
  that reference's identity, requests a requeue, issues no write at all (so none of
  the annotation), leaves the store as it was and records one warning event on the
  Owner; if only optional ones are absent, it never fails with MissingDependency, and
  when the store accepts the updates it issues it succeeds and the Owner's annotation
  holds the fingerprint computed with empty content for the absent ones.
\<close>

theorem missing_dependency:
  "(find (missing_in C ref_id) refs = Some r \<longrightarrow>
      Fingerprint digest refs C = Inl (MissingDependency (ref_kind r) (ref_name r)))
   \<and> (find (missing_in C ref_id) refs = None \<longrightarrow>
        Fingerprint digest refs C =
          Inr (digest (concat (map (\<lambda>r. serialize_ref r
                 (case map_of C (ref_id r) of None \<Rightarrow> [] | Some c \<Rightarrow> c)) refs))))
   \<and> (map_of (owners s) ow = Some T
        \<and> find (missing_in (dependencies s) (dep_of ow)) (Extract T) = Some r' \<longrightarrow>
        Orchestrator digest answer ow s =
          \<lparr>result = Some (MissingDependency (ref_kind r') (ref_name r')), requeue = True,
           final = s, writes = [],
           events = [(ow, Warning (MissingDependency (ref_kind r') (ref_name r')))]\<rparr>)
   \<and> (map_of (owners s) ow = Some T
        \<and> find (missing_in (dependencies s) (dep_of ow)) (Extract T) = None \<longrightarrow>
        result (Orchestrator digest answer ow s) \<noteq> Some (MissingDependency k n)
        \<and> (list_all (\<lambda>(w, a). a = Accepted) (writes (Orchestrator digest answer ow s)) \<longrightarrow>
             result (Orchestrator digest answer ow s) = None
             \<and> map_option (\<lambda>T'. map_of (annotations T') ConfigHashAnnotation)
                 (map_of (owners (final (Orchestrator digest answer ow s))) ow)
               = Some (Some (expected_fingerprint digest ow (Extract T) (dependencies s)))))"
proof (intro conjI impI; (elim conjE)?)
  assume "find (missing_in C ref_id) refs = Some r"
  then show "Fingerprint digest refs C = Inl (MissingDependency (ref_kind r) (ref_name r))"
    unfolding missing_in_def [abs_def] by (simp add: Fingerprint_def byte_stream_missing)
next
  assume "find (missing_in C ref_id) refs = None"
  then show "Fingerprint digest refs C =
          Inr (digest (concat (map (\<lambda>r. serialize_ref r
                 (case map_of C (ref_id r) of None \<Rightarrow> [] | Some c \<Rightarrow> c)) refs)))"
    unfolding missing_in_def [abs_def] by (simp add: Fingerprint_def byte_stream_present)
next
  assume "map_of (owners s) ow = Some T"
    and "find (missing_in (dependencies s) (dep_of ow)) (Extract T) = Some r'"
  then show "Orchestrator digest answer ow s =
          \<lparr>result = Some (MissingDependency (ref_kind r') (ref_name r')), requeue = True,
           final = s, writes = [],
           events = [(ow, Warning (MissingDependency (ref_kind r') (ref_name r')))]\<rparr>"
    unfolding missing_in_def [abs_def] by (simp add: Orchestrator_missing failed_def)
next
  assume own: "map_of (owners s) ow = Some T"
    and "find (missing_in (dependencies s) (dep_of ow)) (Extract T) = None"
  then have ok: "find (\<lambda>r. required r \<and> map_of (dependencies s) (dep_of ow r) = None) (Extract T) = None"
    unfolding missing_in_def [abs_def] by simp
  show "result (Orchestrator digest answer ow s) \<noteq> Some (MissingDependency k n)"
    by (rule Orchestrator_not_missing [OF own ok])
next
  assume own: "map_of (owners s) ow = Some T"
    and "find (missing_in (dependencies s) (dep_of ow)) (Extract T) = None"
    and acc: "list_all (\<lambda>(w, a). a = Accepted) (writes (Orchestrator digest answer ow s))"
  then have ok: "find (\<lambda>r. required r \<and> map_of (dependencies s) (dep_of ow r) = None) (Extract T) = None"
    unfolding missing_in_def [abs_def] by simp
  from Sync_succeeds [OF ok] obtain ms where sync: "Sync ow (Extract T) (dependencies s) = Inr ms"
    by blast
  note out = Orchestrator_success [where answer = answer, OF own ok sync refl Orchestrator_accepted [OF own ok sync refl acc]]
  show "result (Orchestrator digest answer ow s) = None" unfolding out by simp
  show "map_option (\<lambda>T'. map_of (annotations T') ConfigHashAnnotation)
            (map_of (owners (final (Orchestrator digest answer ow s))) ow)
          = Some (Some (expected_fingerprint digest ow (Extract T) (dependencies s)))"
    unfolding out using own by (simp add: update_conv')
qed

theorem missing_dependency_witness:
  "map_of (owners store_missing) web = Some (web_template ''nope'' False)
   \<and> find (missing_in (dependencies store_missing) (dep_of web)) (Extract (web_template ''nope'' False))
       = Some \<lparr>ref_kind = ConfigMapKind, ref_name = ''nope'', required = True\<rparr>
   \<and> Orchestrator (\<lambda>s. s) accept_all web store_missing =
       \<lparr>result = Some (MissingDependency ConfigMapKind ''nope''), requeue = True,
        final = store_missing, writes = [],
        events = [(web, Warning (MissingDependency ConfigMapKind ''nope''))]\<rparr>
   \<and> map_of (owners store_optional) web = Some (web_template ''absent'' True)
   \<and> find (missing_in (dependencies store_optional) (dep_of web)) (Extract (web_template ''absent'' True))
       = None
   \<and> list_all (\<lambda>(w, a). a = Accepted) (writes (Orchestrator (\<lambda>s. s) accept_all web store_optional))
   \<and> result (Orchestrator (\<lambda>s. s) accept_all web store_optional) = None
   \<and> map_option (\<lambda>T'. map_of (annotations T') ConfigHashAnnotation)
        (map_of (owners (final (Orchestrator (\<lambda>s. s) accept_all web store_optional))) web)
       = Some (Some ''ConfigMap/absent:'')"
proof -
  have o1: "map_of (owners store_missing) web = Some (web_template ''nope'' False)"
    by code_simp
  have f1: "find (missing_in (dependencies store_missing) (dep_of web))
              (Extract (web_template ''nope'' False))
            = Some \<lparr>ref_kind = ConfigMapKind, ref_name = ''nope'', required = True\<rparr>"
    by code_simp
  have o2: "map_of (owners store_optional) web = Some (web_template ''absent'' True)"
    by code_simp
  have f2: "find (missing_in (dependencies store_optional) (dep_of web))
              (Extract (web_template ''absent'' True)) = None"
    by code_simp
  have a2: "list_all (\<lambda>(w, a). a = Accepted)
              (writes (Orchestrator (\<lambda>s. s) accept_all web store_optional))"
    by code_simp
  have e2: "expected_fingerprint (\<lambda>s. s) web (Extract (web_template ''absent'' True))
              (dependencies store_optional) = ''ConfigMap/absent:''"
    by code_simp
  from missing_dependency [where s = store_missing and ow = web and digest = "\<lambda>s. s"
      and answer = accept_all and T = "web_template ''nope'' False"
      and r' = "\<lparr>ref_kind = ConfigMapKind, ref_name = ''nope'', required = True\<rparr>"] o1 f1
  have a: "Orchestrator (\<lambda>s. s) accept_all web store_missing =
       \<lparr>result = Some (MissingDependency ConfigMapKind ''nope''), requeue = True,
        final = store_missing, writes = [],
        events = [(web, Warning (MissingDependency ConfigMapKind ''nope''))]\<rparr>"
    by simp
  from missing_dependency [where s = store_optional and ow = web and digest = "\<lambda>s. s"
      and answer = accept_all and T = "web_template ''absent'' True"] o2 f2 a2 e2
  have b: "result (Orchestrator (\<lambda>s. s) accept_all web store_optional) = None
     \<and> map_option (\<lambda>T'. map_of (annotations T') ConfigHashAnnotation)
        (map_of (owners (final (Orchestrator (\<lambda>s. s) accept_all web store_optional))) web)
       = Some (Some ''ConfigMap/absent:'')"
    by simp
  from o1 f1 a o2 f2 a2 b show ?thesis by simp
qed

text \<open>
  C6, as the claim states it, fails: a successful reconciliation of an Owner whose only
  reference is optional and names a Dependency that does not exist leaves no
  Dependency with an edge, while the set of extracted references is not empty.
\<close>

theorem ownership_closure_counterexample:
  "result (Orchestrator (\<lambda>s. s) accept_all web store_optional) = None
   \<and> map_of (owners (final (Orchestrator (\<lambda>s. s) accept_all web store_optional))) web
       = Some (setConfigHash ''ConfigMap/absent:'' (web_template ''absent'' True))
   \<and> edge_holders (dependencies (final (Orchestrator (\<lambda>s. s) accept_all web store_optional))) web
       \<noteq> set (map (dep_of web)
              (Extract (setConfigHash ''ConfigMap/absent:'' (web_template ''absent'' True))))"
  by code_simp

text \<open>
  C6, amended.  Ownership closure over the Dependencies that exist: after a successful
  reconciliation of an Owner, the set of the Dependencies in the store that carry an
  ownership edge to it equals exactly the set of the Dependencies in the store that
  the references extracted from its current pod template name.
\<close>

theorem ownership_closure:
  assumes "result (Orchestrator digest answer ow s) = None"
    and "map_of (owners (final (Orchestrator digest answer ow s))) ow = Some T'"
  shows "edge_holders (dependencies (final (Orchestrator digest answer ow s))) ow =
           set (filter (\<lambda>k. map_of (dependencies (final (Orchestrator digest answer ow s))) k \<noteq> None)
                  (map (dep_of ow) (Extract T')))"
proof -
  obtain T where own: "map_of (owners s) ow = Some T"
    using assms(2) by (cases "map_of (owners s) ow") (auto simp: Orchestrator_absent)
  have ok: "find (\<lambda>r. required r \<and> map_of (dependencies s) (dep_of ow r) = None) (Extract T) = None"
  proof (cases "find (\<lambda>r. required r \<and> map_of (dependencies s) (dep_of ow r) = None) (Extract T)")
    case (Some r)
    from Orchestrator_missing [OF own Some] assms(1) show ?thesis by (simp add: failed_def)
  qed simp
  from Sync_succeeds [OF ok] obtain ms where sync: "Sync ow (Extract T) (dependencies s) = Inr ms"
    by blast
  note out = Orchestrator_success [where answer = answer, OF own ok sync refl
               Orchestrator_result_None [OF own ok sync refl assms(1)]]
  have deps: "dependencies (final (Orchestrator digest answer ow s)) = apply_mutations ms (dependencies s)"
    unfolding out by simp
  have "Extract T' = Extract T"
    using assms(2) own unfolding out by (auto simp: update_conv' split: if_splits)
  then show ?thesis
    unfolding deps edge_holders_def
    using Sync_closure [OF sync]
    by (auto simp: present_apply_mutations edge_at_def dest: map_of_Some_key split: option.splits)
qed

theorem ownership_closure_witness:
  "result (Orchestrator (\<lambda>s. s) accept_all web store_fresh) = None
   \<and> map_of (owners (final (Orchestrator (\<lambda>s. s) accept_all web store_fresh))) web
       = Some (setConfigHash ''ConfigMap/app-config:x=1;'' (web_template ''app-config'' False))
   \<and> edge_holders (dependencies (final (Orchestrator (\<lambda>s. s) accept_all web store_fresh))) web
       = {cm ''app-config''}"
proof -
  have r: "result (Orchestrator (\<lambda>s. s) accept_all web store_fresh) = None" by code_simp
  have t: "map_of (owners (final (Orchestrator (\<lambda>s. s) accept_all web store_fresh))) web
       = Some (setConfigHash ''ConfigMap/app-config:x=1;'' (web_template ''app-config'' False))"
    by code_simp
  have e: "set (filter (\<lambda>k. map_of (dependencies (final (Orchestrator (\<lambda>s. s) accept_all web store_fresh))) k \<noteq> None)
                  (map (dep_of web)
                     (Extract (setConfigHash ''ConfigMap/app-config:x=1;''
                                 (web_template ''app-config'' False)))))
           = {cm ''app-config''}"
    by code_simp
  from ownership_closure [OF r t] r t e show ?thesis by simp
qed






end
